theory Spec2Isabelle
  imports Main "HOL-Library.Multiset"
begin

section \<open>The environment of generate\_ico.py\<close>

text \<open>
  The script reads a directory of PNG files and writes one icon container. Its only
  data are paths, the files behind them, decoded images with a width and a height, and
  the text it prints. The file system is a map from paths to nodes; an image records how
  it was obtained (opened from a file's bytes, or resized from another image), so that
  a synthesized image can be told from an opened one.
\<close>

type_synonym path = string
type_synonym bytes = "nat list"

datatype node = Directory | File bytes

type_synonym filesystem = "path \<Rightarrow> node option"

datatype resampling = NEAREST | BOX | BILINEAR | HAMMING | BICUBIC | LANCZOS

datatype image =
    Opened bytes "nat \<times> nat"
  | Resized image "nat \<times> nat" resampling

text \<open>\<open>img.size\<close>: the (width, height) pair of an image.\<close>

fun img_size :: "image \<Rightarrow> nat \<times> nat" where
  "img_size (Opened b sz) = sz"
| "img_size (Resized src sz r) = sz"

text \<open>\<open>img.resize(size, resample)\<close> returns a new image of the requested size.\<close>

definition resize :: "image \<Rightarrow> nat \<times> nat \<Rightarrow> resampling \<Rightarrow> image" where
  "resize img sz resample = Resized img sz resample"

text \<open>The sort key of line 70: \<open>img.size[0] * img.size[1]\<close>.\<close>

definition area :: "image \<Rightarrow> nat" where
  "area img = fst (img_size img) * snd (img_size img)"

text \<open>
  The image library is a parameter of the model: which byte strings it identifies as an
  image (and of which size), what its ICO encoder produces for the arguments of
  \<open>save\<close> (\<open>None\<close>: the encoder raises), and whether the module has the
  \<open>Image.Resampling\<close> enumeration (Pillow from 9.1 on) that line 50 looks up.
\<close>

record pillow =
  has_Resampling :: bool
  identify :: "bytes \<Rightarrow> (nat \<times> nat) option"
  ico_encode :: "image \<Rightarrow> (nat \<times> nat) list \<Rightarrow> image list option \<Rightarrow> bytes option"

text \<open>
  Exceptions. \<open>SystemExit n\<close> is \<open>sys.exit(n)\<close>; the others are raised by library
  calls, are caught nowhere in the script, and end the process with status 1.
\<close>

datatype exn =
    SystemExit int
  | AttributeError
  | FileNotFoundError
  | IsADirectoryError
  | FileExistsError
  | UnidentifiedImageError
  | EncoderError

text \<open>
  What the process does to the outside world, in program order: text on the two
  streams and the library calls that touch the file system. A \<open>Save\<close> event carries
  the arguments of the call and what was written (\<open>None\<close> when the call raised).
\<close>

record save_call =
  primary :: image
  sizes :: "(nat \<times> nat) list"
  append_images :: "image list option"
  written :: "bytes option"

datatype event =
    Stdout string
  | Stderr string
  | Open_image path
  | Makedirs path
  | Save path save_call

record world =
  fs :: filesystem
  trace :: "event list"

definition init :: "filesystem \<Rightarrow> world" where
  "init fs0 = \<lparr>fs = fs0, trace = []\<rparr>"

definition emit :: "event \<Rightarrow> world \<Rightarrow> world" where
  "emit e w = w\<lparr>trace := trace w @ [e]\<rparr>"

text \<open>\<open>print(s)\<close> and \<open>print(s, file=sys.stderr)\<close>.\<close>

definition print_out :: "string \<Rightarrow> world \<Rightarrow> world" where
  "print_out s w = emit (Stdout s) w"

definition print_err :: "string \<Rightarrow> world \<Rightarrow> world" where
  "print_err s w = emit (Stderr s) w"

subsection \<open>The os and os.path calls\<close>

definition path_isdir :: "world \<Rightarrow> path \<Rightarrow> bool" where
  "path_isdir w p = (fs w p = Some Directory)"

definition path_exists :: "world \<Rightarrow> path \<Rightarrow> bool" where
  "path_exists w p = (fs w p \<noteq> None)"

text \<open>\<open>os.path.join(a, b)\<close> for a non-empty \<open>a\<close> without a trailing separator and a
  relative \<open>b\<close>, which is all the script passes.\<close>

definition path_join :: "path \<Rightarrow> path \<Rightarrow> path" where
  "path_join a b = a @ ''/'' @ b"

text \<open>\<open>os.path.getsize(p)\<close>. The size of a directory entry is not modelled (0).\<close>

definition getsize :: "world \<Rightarrow> path \<Rightarrow> exn + nat" where
  "getsize w p =
     (case fs w p of
        None \<Rightarrow> Inl FileNotFoundError
      | Some Directory \<Rightarrow> Inr 0
      | Some (File b) \<Rightarrow> Inr (length b))"

text \<open>\<open>os.makedirs(name, exist_ok=True)\<close> for a single path component.\<close>

definition makedirs :: "path \<Rightarrow> world \<Rightarrow> (exn + unit) \<times> world" where
  "makedirs name w =
     (let w' = emit (Makedirs name) w in
      case fs w name of
        Some Directory \<Rightarrow> (Inr (), w')
      | Some (File b) \<Rightarrow> (Inl FileExistsError, w')
      | None \<Rightarrow> (Inr (), w'\<lparr>fs := (fs w')(name \<mapsto> Directory)\<rparr>))"

subsection \<open>The image library calls\<close>

text \<open>\<open>Image.open(p)\<close>: raises on a missing path, a directory, or bytes that are no
  image.\<close>

definition Image_open :: "pillow \<Rightarrow> path \<Rightarrow> world \<Rightarrow> (exn + image) \<times> world" where
  "Image_open pil p w =
     (let w' = emit (Open_image p) w in
      case fs w p of
        None \<Rightarrow> (Inl FileNotFoundError, w')
      | Some Directory \<Rightarrow> (Inl IsADirectoryError, w')
      | Some (File b) \<Rightarrow>
          (case identify pil b of
             None \<Rightarrow> (Inl UnidentifiedImageError, w')
           | Some sz \<Rightarrow> (Inr (Opened b sz), w')))"

text \<open>\<open>Image.Resampling.LANCZOS\<close> (an AttributeError on an old Pillow) and
  \<open>Image.LANCZOS\<close>.\<close>

definition Resampling_LANCZOS :: "pillow \<Rightarrow> exn + resampling" where
  "Resampling_LANCZOS pil = (if has_Resampling pil then Inr LANCZOS else Inl AttributeError)"

definition Image_LANCZOS :: resampling where
  "Image_LANCZOS = LANCZOS"

text \<open>\<open>img.save(fp, format='ICO', sizes=..., append_images=...)\<close>: raises when
  \<open>fp\<close> is a directory or the encoder fails, and otherwise replaces the file at
  \<open>fp\<close> with the encoder's bytes.\<close>

definition Image_save ::
  "pillow \<Rightarrow> image \<Rightarrow> path \<Rightarrow> (nat \<times> nat) list \<Rightarrow> image list option \<Rightarrow> world
     \<Rightarrow> (exn + unit) \<times> world" where
  "Image_save pil img fp szs app w =
     (let call = \<lparr>primary = img, sizes = szs, append_images = app, written = None\<rparr> in
      case fs w fp of
        Some Directory \<Rightarrow> (Inl IsADirectoryError, emit (Save fp call) w)
      | _ \<Rightarrow>
          (case ico_encode pil img szs app of
             None \<Rightarrow> (Inl EncoderError, emit (Save fp call) w)
           | Some b \<Rightarrow>
               (Inr (), emit (Save fp (call\<lparr>written := Some b\<rparr>))
                          (w\<lparr>fs := (fs w)(fp \<mapsto> File b)\<rparr>))))"

subsection \<open>Python built-ins\<close>

text \<open>\<open>str(n)\<close> for a non-negative integer, as an f-string formats it.\<close>

function str :: "nat \<Rightarrow> string" where
  "str n = (if n < 10 then [char_of (48 + n)] else str (n div 10) @ [char_of (48 + n mod 10)])"
  by pat_completeness auto
termination
  by (relation "measure id") auto

declare str.simps [simp del]

text \<open>\<open>xs.insert(i, x)\<close> for \<open>i \<ge> 0\<close>: before the element at index \<open>i\<close>, or at the
  end when the list is shorter.\<close>

definition list_insert :: "nat \<Rightarrow> 'a \<Rightarrow> 'a list \<Rightarrow> 'a list" where
  "list_insert i x xs = take i xs @ x # drop i xs"

text \<open>\<open>sorted(xs, key=key, reverse=True)\<close>: CPython reverses the list, sorts it stably
  in ascending key order, and reverses the result, so that equal keys keep their
  original order.\<close>

definition sorted_reverse :: "('a \<Rightarrow> nat) \<Rightarrow> 'a list \<Rightarrow> 'a list" where
  "sorted_reverse key xs = rev (sort_key key (rev xs))"

section \<open>The script\<close>

definition iconset_dir :: path where
  "iconset_dir = ''phraims.iconset''"

definition output_ico :: path where
  "output_ico = ''resources/phraims.ico''"

definition png_files :: "string list" where
  "png_files =
     [''icon_16x16.png'', ''icon_32x32.png'', ''icon_32x32@2x.png'',
      ''icon_128x128.png'', ''icon_256x256.png'']"

text \<open>The path of an expected file: \<open>os.path.join(iconset_dir, png_file)\<close>.\<close>

abbreviation iconset_file :: "string \<Rightarrow> path" where
  "iconset_file n \<equiv> path_join iconset_dir n"

text \<open>Lines 34 to 41: the loop over \<open>png_files\<close>, with \<open>images\<close> as accumulator.\<close>

fun collect :: "pillow \<Rightarrow> string list \<Rightarrow> image list \<Rightarrow> world \<Rightarrow> (exn + image list) \<times> world" where
  "collect pil [] images w = (Inr images, w)"
| "collect pil (png_file # rest) images w =
     (let png_path = path_join iconset_dir png_file in
      if path_exists w png_path then
        (case Image_open pil png_path w of
           (Inl e, w') \<Rightarrow> (Inl e, w')
         | (Inr img, w') \<Rightarrow>
             collect pil rest (images @ [img])
               (print_out (''Added '' @ png_file @ '' ('' @ str (fst (img_size img)) @ ''x''
                             @ str (snd (img_size img)) @ '')'') w'))
      else collect pil rest images (print_err (''Warning: '' @ png_file @ '' not found'') w))"

text \<open>Lines 43 to 55: the 48x48 image, resized from the file named icon\_256x256.png.\<close>

definition generate_48 :: "pillow \<Rightarrow> image list \<Rightarrow> world \<Rightarrow> (exn + image list) \<times> world" where
  "generate_48 pil images w =
     (let icon_256_path = path_join iconset_dir ''icon_256x256.png'' in
      if path_exists w icon_256_path then
        (case Image_open pil icon_256_path w of
           (Inl e, w') \<Rightarrow> (Inl e, w')
         | (Inr img_256, w') \<Rightarrow>
             (let resample = (case Resampling_LANCZOS pil of
                                Inr r \<Rightarrow> r
                              | Inl e \<Rightarrow> Image_LANCZOS);
                  img_48 = resize img_256 (48, 48) resample
              in (Inr (list_insert 2 img_48 images),
                  print_out ''Generated 48x48 from 256x256'' w')))
      else (Inr images, w))"

text \<open>Lines 32 to 55 together: the value of \<open>images\<close> when line 57 is reached.\<close>

definition gather :: "pillow \<Rightarrow> world \<Rightarrow> (exn + image list) \<times> world" where
  "gather pil w =
     (case collect pil png_files [] w of
        (Inl e, w1) \<Rightarrow> (Inl e, w1)
      | (Inr images, w1) \<Rightarrow> generate_48 pil images w1)"

text \<open>Lines 57 to 86: the empty check, the output directory, the save and its
  verification.\<close>

definition save_ico :: "pillow \<Rightarrow> image list \<Rightarrow> world \<Rightarrow> (exn + unit) \<times> world" where
  "save_ico pil images w =
     (if images = [] then
        (Inl (SystemExit 1), print_err ''Error: No PNG images found to convert'' w)
      else
        (case makedirs ''resources'' w of
           (Inl e, w1) \<Rightarrow> (Inl e, w1)
         | (Inr u, w1) \<Rightarrow>
             (let szs = map img_size images;
                  images_sorted = sorted_reverse area images
              in case Image_save pil (hd images_sorted) output_ico szs
                        (if length images_sorted > 1 then Some (tl images_sorted) else None) w1 of
                   (Inl e, w2) \<Rightarrow> (Inl e, w2)
                 | (Inr u, w2) \<Rightarrow>
                     (if path_exists w2 output_ico then
                        (case getsize w2 output_ico of
                           Inl e \<Rightarrow> (Inl e, w2)
                         | Inr size_bytes \<Rightarrow>
                             (Inr (),
                              print_out (''Size: '' @ str size_bytes @ '' bytes (''
                                           @ str (size_bytes div 1024) @ '' KB)'')
                                (print_out (CHR 0x0A # ''Successfully created '' @ output_ico) w2)))
                      else
                        (Inl (SystemExit 1),
                         print_err (''Error: Failed to create '' @ output_ico) w2)))))"

definition main :: "pillow \<Rightarrow> filesystem \<Rightarrow> (exn + unit) \<times> world" where
  "main pil fs0 =
     (let w = init fs0 in
      if \<not> path_isdir w iconset_dir then
        (Inl (SystemExit 1),
         print_err (''Error: '' @ iconset_dir @ '' directory not found'') w)
      else
        (case gather pil w of
           (Inl e, w1) \<Rightarrow> (Inl e, w1)
         | (Inr images, w1) \<Rightarrow> save_ico pil images w1))"

text \<open>The status the process ends with: 0 when \<open>main\<close> returns, the argument of
  \<open>sys.exit\<close>, and 1 for an exception nobody catches.\<close>

fun exit_status :: "exn + unit \<Rightarrow> int" where
  "exit_status (Inr u) = 0"
| "exit_status (Inl (SystemExit n)) = n"
| "exit_status (Inl e) = 1"

section \<open>Observations on a run\<close>

text \<open>What \<open>Image.open\<close> returns for a path of a file system, when it returns.\<close>

definition decode :: "pillow \<Rightarrow> filesystem \<Rightarrow> path \<Rightarrow> image option" where
  "decode pil f p =
     (case f p of
        Some (File b) \<Rightarrow> map_option (Opened b) (identify pil b)
      | _ \<Rightarrow> None)"

text \<open>The images of the expected files that are present, in the order of
  \<open>png_files\<close>.\<close>

definition expected_images :: "pillow \<Rightarrow> filesystem \<Rightarrow> image list" where
  "expected_images pil f =
     List.map_filter (\<lambda>n. decode pil f (path_join iconset_dir n)) png_files"

text \<open>The \<open>save\<close> calls of a run, and whether one of them wrote its file.\<close>

fun save_of :: "event \<Rightarrow> save_call option" where
  "save_of (Save p c) = Some c"
| "save_of e = None"

definition saves :: "world \<Rightarrow> save_call list" where
  "saves w = List.map_filter save_of (trace w)"

definition save_succeeded :: "world \<Rightarrow> bool" where
  "save_succeeded w = list_ex (\<lambda>c. written c \<noteq> None) (saves w)"

text \<open>The images a \<open>save\<close> call hands to the encoder, in the order it writes them:
  the image the method is called on, then \<open>append_images\<close>.\<close>

definition frames :: "save_call \<Rightarrow> image list" where
  "frames c = primary c # (case append_images c of None \<Rightarrow> [] | Some l \<Rightarrow> l)"

text \<open>The arguments line 72 computes from \<open>images\<close>, with what the call wrote.\<close>

definition save_args :: "image list \<Rightarrow> bytes option \<Rightarrow> save_call" where
  "save_args images wr =
     \<lparr>primary = hd (sorted_reverse area images),
      sizes = map img_size images,
      append_images = (if length (sorted_reverse area images) > 1
                       then Some (tl (sorted_reverse area images)) else None),
      written = wr\<rparr>"

fun synthesized :: "image \<Rightarrow> bool" where
  "synthesized (Resized src sz r) = True"
| "synthesized (Opened b sz) = False"

fun touches_fs :: "event \<Rightarrow> bool" where
  "touches_fs (Stdout s) = False"
| "touches_fs (Stderr s) = False"
| "touches_fs e = True"

subsection \<open>Sample runs\<close>

text \<open>A toy image library: a file of two numbers is an image of that width and
  height, and the encoder writes the requested sizes one after the other.\<close>

definition pil0 :: pillow where
  "pil0 = \<lparr>has_Resampling = True,
           identify = (\<lambda>b. case b of [x, y] \<Rightarrow> Some (x, y) | _ \<Rightarrow> None),
           ico_encode = (\<lambda>img szs app. Some (concat (map (\<lambda>(x, y). [x, y]) szs)))\<rparr>"

definition fs_full :: filesystem where
  "fs_full = map_of
     [(''phraims.iconset'', Directory),
      (''phraims.iconset/icon_16x16.png'', File [16, 16]),
      (''phraims.iconset/icon_32x32.png'', File [32, 32]),
      (''phraims.iconset/icon_32x32@2x.png'', File [64, 64]),
      (''phraims.iconset/icon_128x128.png'', File [128, 128]),
      (''phraims.iconset/icon_256x256.png'', File [256, 256])]"

definition fs_no256 :: filesystem where
  "fs_no256 = map_of
     [(''phraims.iconset'', Directory),
      (''phraims.iconset/icon_16x16.png'', File [16, 16]),
      (''phraims.iconset/icon_128x128.png'', File [128, 128])]"


definition fs_unrelated :: filesystem where
  "fs_unrelated = map_of
     [(''phraims.iconset'', Directory),
      (''phraims.iconset/README.txt'', File [1, 2, 3])]"

definition fs_nodir :: filesystem where
  "fs_nodir = map_of [(''README.txt'', File [1, 2, 3])]"

section \<open>Basic facts about the steps\<close>

subsection \<open>Events, decoding and the collection loop\<close>



lemma fs_emit [simp]: "fs (emit e w) = fs w"
  by (simp add: emit_def)

lemma trace_emit [simp]: "trace (emit e w) = trace w @ [e]"
  by (simp add: emit_def)

lemma fs_print_out [simp]: "fs (print_out s w) = fs w"
  by (simp add: print_out_def)

lemma trace_print_out [simp]: "trace (print_out s w) = trace w @ [Stdout s]"
  by (simp add: print_out_def)

lemma fs_print_err [simp]: "fs (print_err s w) = fs w"
  by (simp add: print_err_def)

lemma trace_print_err [simp]: "trace (print_err s w) = trace w @ [Stderr s]"
  by (simp add: print_err_def)

lemma decode_absent [simp]: "f p = None \<Longrightarrow> decode pil f p = None"
  by (simp add: decode_def)

lemma decode_SomeD: "decode pil f p = Some img \<Longrightarrow> f p \<noteq> None"
  by (auto simp: decode_def split: option.splits)

lemma decode_Opened: "decode pil f p = Some img \<Longrightarrow> \<not> synthesized img"
  by (auto simp: decode_def split: option.splits node.splits)

lemma decode_cong: "f1 p = f2 p \<Longrightarrow> decode pil f1 p = decode pil f2 p"
  by (simp add: decode_def)

lemma Image_open_snd [simp]: "snd (Image_open pil p w) = emit (Open_image p) w"
  by (simp add: Image_open_def Let_def split: option.splits node.splits)

lemma Image_open_Some:
  "decode pil (fs w) p = Some img \<Longrightarrow> Image_open pil p w = (Inr img, emit (Open_image p) w)"
  by (auto simp: Image_open_def decode_def Let_def split: option.splits node.splits)

lemma Image_open_None:
  "decode pil (fs w) p = None \<Longrightarrow> \<exists>e. Image_open pil p w = (Inl e, emit (Open_image p) w)"
  by (auto simp: Image_open_def decode_def Let_def split: option.splits node.splits)

lemma collect_present:
  "decode pil (fs w) (iconset_file n) = Some img \<Longrightarrow>
   collect pil (n # rest) images w =
     collect pil rest (images @ [img])
       (print_out (''Added '' @ n @ '' ('' @ str (fst (img_size img)) @ ''x''
                     @ str (snd (img_size img)) @ '')'')
          (emit (Open_image (iconset_file n)) w))"
  by (auto simp: Image_open_Some path_exists_def Let_def decode_def split: option.splits)

lemma collect_absent:
  "fs w (iconset_file n) = None \<Longrightarrow>
   collect pil (n # rest) images w =
     collect pil rest images (print_err (''Warning: '' @ n @ '' not found'') w)"
  by (simp add: path_exists_def)

lemma collect_undecodable:
  "fs w (iconset_file n) \<noteq> None \<Longrightarrow> decode pil (fs w) (iconset_file n) = None \<Longrightarrow>
   \<exists>e. collect pil (n # rest) images w = (Inl e, emit (Open_image (iconset_file n)) w)"
  using Image_open_None [of pil w "iconset_file n"]
  by (auto simp: path_exists_def Let_def)

declare collect.simps(2) [simp del]

lemma collect_cases:
  obtains (absent) "fs w p = None"
  | (undecodable) "fs w p \<noteq> None" "decode pil (fs w) p = None"
  | (present) img where "decode pil (fs w) p = Some img"
  by (cases "decode pil (fs w) p") (auto simp: decode_def split: option.splits)

lemma collect_fs [simp]: "fs (snd (collect pil fl images w)) = fs w"
proof (induction fl arbitrary: images w)
  case Nil
  show ?case by simp
next
  case (Cons n rest)
  show ?case
  proof (cases rule: collect_cases [where w = w and p = "iconset_file n" and pil = pil])
    case absent
    then show ?thesis by (simp only: collect_absent Cons.IH fs_print_err)
  next
    case undecodable
    then obtain e where "collect pil (n # rest) images w = (Inl e, emit (Open_image (iconset_file n)) w)"
      using collect_undecodable by blast
    then show ?thesis by simp
  next
    case (present img)
    then show ?thesis by (simp only: collect_present Cons.IH fs_print_out fs_emit)
  qed
qed

lemma collect_Inr_iff:
  "fst (collect pil fl images w) = Inr r \<longleftrightarrow>
     (\<forall>n\<in>set fl. fs w (iconset_file n) \<noteq> None \<longrightarrow> decode pil (fs w) (iconset_file n) \<noteq> None)
     \<and> r = images @ List.map_filter (\<lambda>n. decode pil (fs w) (iconset_file n)) fl"
proof (induction fl arbitrary: images w)
  case Nil
  show ?case by auto
next
  case (Cons n rest)
  show ?case
  proof (cases rule: collect_cases [where w = w and p = "iconset_file n" and pil = pil])
    case absent
    then show ?thesis
      by (simp add: collect_absent Cons.IH)
  next
    case undecodable
    then obtain e where "collect pil (n # rest) images w = (Inl e, emit (Open_image (iconset_file n)) w)"
      using collect_undecodable by blast
    with undecodable show ?thesis by auto
  next
    case (present img)
    then have "fs w (iconset_file n) \<noteq> None"
      by (rule decode_SomeD)
    with present show ?thesis
      by (simp add: collect_present Cons.IH)
  qed
qed


lemma collect_all_absent:
  "\<forall>n\<in>set fl. fs w (iconset_file n) = None \<Longrightarrow>
   collect pil fl images w =
     (Inr images, w\<lparr>trace := trace w @ map (\<lambda>n. Stderr (''Warning: '' @ n @ '' not found'')) fl\<rparr>)"
proof (induction fl arbitrary: w)
  case Nil
  show ?case by simp
next
  case (Cons n rest)
  then show ?case
    by (simp add: collect_absent print_err_def emit_def)
qed

lemma collect_trace_mono: "set (trace w) \<subseteq> set (trace (snd (collect pil fl images w)))"
proof (induction fl arbitrary: images w)
  case Nil
  show ?case by simp
next
  case (Cons n rest)
  show ?case
  proof (cases rule: collect_cases [where w = w and p = "iconset_file n" and pil = pil])
    case absent
    have "set (trace (print_err (''Warning: '' @ n @ '' not found'') w))
            \<subseteq> set (trace (snd (collect pil (n # rest) images w)))"
      using Cons.IH by (simp only: collect_absent [OF absent])
    then show ?thesis by auto
  next
    case undecodable
    then obtain e where "collect pil (n # rest) images w = (Inl e, emit (Open_image (iconset_file n)) w)"
      using collect_undecodable by blast
    then show ?thesis by auto
  next
    case (present img)
    have "set (trace (print_out (''Added '' @ n @ '' ('' @ str (fst (img_size img)) @ ''x''
                     @ str (snd (img_size img)) @ '')'')
          (emit (Open_image (iconset_file n)) w)))
            \<subseteq> set (trace (snd (collect pil (n # rest) images w)))"
      using Cons.IH by (simp only: collect_present [OF present])
    then show ?thesis by auto
  qed
qed

lemma collect_warns:
  "n \<in> set fl \<Longrightarrow> fs w (iconset_file n) = None \<Longrightarrow>
   (\<forall>m\<in>set fl. fs w (iconset_file m) \<noteq> None \<longrightarrow> decode pil (fs w) (iconset_file m) \<noteq> None) \<Longrightarrow>
   Stderr (''Warning: '' @ n @ '' not found'') \<in> set (trace (snd (collect pil fl images w)))"
proof (induction fl arbitrary: images w)
  case Nil
  then show ?case by simp
next
  case (Cons m rest)
  show ?case
  proof (cases rule: collect_cases [where w = w and p = "iconset_file m" and pil = pil])
    case absent
    show ?thesis
    proof (cases "n = m")
      case True
      have "Stderr (''Warning: '' @ m @ '' not found'')
              \<in> set (trace (print_err (''Warning: '' @ m @ '' not found'') w))"
        by simp
      then have "Stderr (''Warning: '' @ m @ '' not found'')
              \<in> set (trace (snd (collect pil rest images (print_err (''Warning: '' @ m @ '' not found'') w))))"
        using collect_trace_mono by blast
      then show ?thesis using True by (simp only: collect_absent [OF absent])
    next
      case False
      then have "n \<in> set rest" using Cons.prems(1) by simp
      then show ?thesis
        using Cons.IH Cons.prems
        by (simp add: collect_absent [OF absent])
    qed
  next
    case undecodable
    then show ?thesis using Cons.prems(3) by simp
  next
    case (present img)
    then have "n \<noteq> m" using Cons.prems(2) by (auto dest: decode_SomeD)
    then have "n \<in> set rest" using Cons.prems(1) by simp
    then show ?thesis
      using Cons.IH Cons.prems
      by (simp add: collect_present [OF present])
  qed
qed

lemma saves_emit [simp]: "saves (emit e w) = saves w @ (case save_of e of None \<Rightarrow> [] | Some c \<Rightarrow> [c])"
  by (simp add: saves_def List.map_filter_def split: option.splits)

lemma saves_print_out [simp]: "saves (print_out s w) = saves w"
  by (simp add: print_out_def)

lemma saves_print_err [simp]: "saves (print_err s w) = saves w"
  by (simp add: print_err_def)

lemma collect_saves [simp]: "saves (snd (collect pil fl images w)) = saves w"
proof (induction fl arbitrary: images w)
  case Nil
  show ?case by simp
next
  case (Cons n rest)
  show ?case
  proof (cases rule: collect_cases [where w = w and p = "iconset_file n" and pil = pil])
    case absent
    then show ?thesis by (simp add: collect_absent Cons.IH)
  next
    case undecodable
    then obtain e where "collect pil (n # rest) images w = (Inl e, emit (Open_image (iconset_file n)) w)"
      using collect_undecodable by blast
    then show ?thesis by simp
  next
    case (present img)
    then show ?thesis by (simp add: collect_present Cons.IH)
  qed
qed

lemma collect_cong:
  "\<forall>n\<in>set fl. fs w1 (iconset_file n) = fs w2 (iconset_file n) \<Longrightarrow> trace w1 = trace w2 \<Longrightarrow>
   fst (collect pil fl images w1) = fst (collect pil fl images w2) \<and>
   trace (snd (collect pil fl images w1)) = trace (snd (collect pil fl images w2))"
proof (induction fl arbitrary: images w1 w2)
  case Nil
  then show ?case by simp
next
  case (Cons n rest)
  have same: "fs w1 (iconset_file n) = fs w2 (iconset_file n)"
    using Cons.prems(1) by simp
  have rest: "\<forall>m\<in>set rest. fs w1 (iconset_file m) = fs w2 (iconset_file m)"
    using Cons.prems(1) by simp
  show ?case
  proof (cases rule: collect_cases [where w = w1 and p = "iconset_file n" and pil = pil])
    case absent
    then have absent2: "fs w2 (iconset_file n) = None" using same by simp
    show ?thesis
      using Cons.IH [where ?w1.0 = "print_err (''Warning: '' @ n @ '' not found'') w1"
                       and ?w2.0 = "print_err (''Warning: '' @ n @ '' not found'') w2"
                       and images = images]
        rest Cons.prems(2)
      by (simp add: collect_absent [OF absent] collect_absent [OF absent2])
  next
    case undecodable
    then have u2: "fs w2 (iconset_file n) \<noteq> None" "decode pil (fs w2) (iconset_file n) = None"
      using same decode_cong [of "fs w1" "iconset_file n" "fs w2" pil, OF same] by simp_all
    have "Image_open pil (iconset_file n) w1 = (fst (Image_open pil (iconset_file n) w2), emit (Open_image (iconset_file n)) w1)"
      using same by (simp add: Image_open_def Let_def split: option.splits node.splits)
    then have "fst (Image_open pil (iconset_file n) w1) = fst (Image_open pil (iconset_file n) w2)"
      by simp
    moreover obtain e1 where "Image_open pil (iconset_file n) w1 = (Inl e1, emit (Open_image (iconset_file n)) w1)"
      using Image_open_None [OF undecodable(2)] by blast
    moreover obtain e2 where "Image_open pil (iconset_file n) w2 = (Inl e2, emit (Open_image (iconset_file n)) w2)"
      using Image_open_None [OF u2(2)] by blast
    ultimately show ?thesis
      using undecodable u2 Cons.prems(2)
      by (simp add: collect.simps(2) path_exists_def Let_def)
  next
    case (present img)
    then have p2: "decode pil (fs w2) (iconset_file n) = Some img"
      using decode_cong [of "fs w1" "iconset_file n" "fs w2" pil, OF same] by simp
    show ?thesis
      using Cons.IH [where ?w1.0 = "print_out (''Added '' @ n @ '' ('' @ str (fst (img_size img)) @ ''x''
                     @ str (snd (img_size img)) @ '')'') (emit (Open_image (iconset_file n)) w1)"
                    and ?w2.0 = "print_out (''Added '' @ n @ '' ('' @ str (fst (img_size img)) @ ''x''
                     @ str (snd (img_size img)) @ '')'') (emit (Open_image (iconset_file n)) w2)"
                    and images = "images @ [img]"]
        rest Cons.prems(2)
      by (simp add: collect_present [OF present] collect_present [OF p2])
  qed
qed

subsection \<open>Sorting and inserting\<close>

lemma mset_sorted_reverse [simp]: "mset (sorted_reverse k xs) = mset xs"
  by (simp add: sorted_reverse_def)

lemma set_sorted_reverse [simp]: "set (sorted_reverse k xs) = set xs"
  by (simp add: sorted_reverse_def)

lemma length_sorted_reverse [simp]: "length (sorted_reverse k xs) = length xs"
  by (simp add: sorted_reverse_def)

lemma sorted_reverse_Nil_iff [simp]: "sorted_reverse k xs = [] \<longleftrightarrow> xs = []"
  using length_sorted_reverse [of k xs] by (metis length_0_conv)

lemma sorted_reverse_descending: "sorted_wrt (\<lambda>a b. k b \<le> k a) (sorted_reverse k xs)"
proof -
  have "sorted (map k (sort_key k (rev xs)))"
    by (rule sorted_sort_key)
  then have "sorted_wrt (\<lambda>a b. k a \<le> k b) (sort_key k (rev xs))"
    by (simp add: sorted_wrt_map)
  then show ?thesis
    by (simp add: sorted_reverse_def sorted_wrt_rev)
qed

lemma hd_sorted_reverse_max:
  assumes "x \<in> set xs"
  shows "k x \<le> k (hd (sorted_reverse k xs))"
proof -
  from assms have "sorted_reverse k xs \<noteq> []" by auto
  then obtain h t where ht: "sorted_reverse k xs = h # t"
    by (cases "sorted_reverse k xs") auto
  have "sorted_wrt (\<lambda>a b. k b \<le> k a) (h # t)"
    using sorted_reverse_descending [of k xs] ht by simp
  then have "\<forall>y\<in>set t. k y \<le> k h" by simp
  moreover have "x \<in> set (h # t)"
    using assms set_sorted_reverse [of k xs] ht by simp
  ultimately show ?thesis using ht by auto
qed

lemma length_list_insert [simp]: "length (list_insert i x xs) = Suc (length xs)"
  by (simp add: list_insert_def)

lemma list_insert_neq_Nil [simp]: "list_insert i x xs \<noteq> []"
  by (simp add: list_insert_def)

lemma mset_list_insert [simp]: "mset (list_insert i x xs) = add_mset x (mset xs)"
proof -
  have "mset (take i xs) + mset (drop i xs) = mset xs"
    by (metis append_take_drop_id mset_append)
  then show ?thesis by (simp add: list_insert_def)
qed


lemma frames_save_args: "images \<noteq> [] \<Longrightarrow> frames (save_args images wr) = sorted_reverse area images"
proof -
  assume ne: "images \<noteq> []"
  then obtain h t where ht: "sorted_reverse area images = h # t"
    by (cases "sorted_reverse area images") auto
  show ?thesis
    by (cases t) (simp_all add: frames_def save_args_def ht)
qed

lemma sizes_save_args [simp]: "sizes (save_args images wr) = map img_size images"
  by (simp add: save_args_def)

lemma written_save_args [simp]: "written (save_args images wr) = wr"
  by (simp add: save_args_def)

lemma primary_save_args [simp]: "primary (save_args images wr) = hd (sorted_reverse area images)"
  by (simp add: save_args_def)

subsection \<open>Synthesizing the 48x48 image\<close>

lemma generate_48_absent:
  "fs w (iconset_file ''icon_256x256.png'') = None \<Longrightarrow> generate_48 pil images w = (Inr images, w)"
  by (simp add: generate_48_def path_exists_def)

lemma generate_48_present:
  "decode pil (fs w) (iconset_file ''icon_256x256.png'') = Some img \<Longrightarrow>
   generate_48 pil images w =
     (Inr (list_insert 2 (Resized img (48, 48) LANCZOS) images),
      print_out ''Generated 48x48 from 256x256''
        (emit (Open_image (iconset_file ''icon_256x256.png'')) w))"
  using decode_SomeD [of pil "fs w" "iconset_file ''icon_256x256.png''" img]
  by (simp add: generate_48_def path_exists_def Image_open_Some Let_def resize_def
      Resampling_LANCZOS_def Image_LANCZOS_def)

lemma generate_48_undecodable:
  "fs w (iconset_file ''icon_256x256.png'') \<noteq> None \<Longrightarrow>
   decode pil (fs w) (iconset_file ''icon_256x256.png'') = None \<Longrightarrow>
   \<exists>e. generate_48 pil images w = (Inl e, emit (Open_image (iconset_file ''icon_256x256.png'')) w)"
  using Image_open_None [of pil w "iconset_file ''icon_256x256.png''"]
  by (auto simp: generate_48_def path_exists_def Let_def)

lemma icon_256_expected: "''icon_256x256.png'' \<in> set png_files"
  by (simp add: png_files_def)

subsection \<open>The collected list\<close>

lemma gather_fs [simp]: "fs (snd (gather pil w)) = fs w"
proof (cases "collect pil png_files [] w")
  case (Pair r w1)
  then have w1: "fs w1 = fs w"
    using collect_fs [of pil png_files "[]" w] by simp
  show ?thesis
  proof (cases r)
    case (Inl e)
    with Pair w1 show ?thesis by (simp add: gather_def)
  next
    case (Inr images)
    have "fs (snd (generate_48 pil images w1)) = fs w1"
    proof (cases rule: collect_cases [where w = w1 and p = "iconset_file ''icon_256x256.png''" and pil = pil])
      case absent
      then show ?thesis by (simp add: generate_48_absent)
    next
      case undecodable
      then show ?thesis using generate_48_undecodable [of w1 pil images] by auto
    next
      case (present img)
      then show ?thesis by (simp add: generate_48_present)
    qed
    with Pair Inr w1 show ?thesis by (simp add: gather_def)
  qed
qed

lemma gather_saves [simp]: "saves (snd (gather pil w)) = saves w"
proof (cases "collect pil png_files [] w")
  case (Pair r w1)
  then have w1: "saves w1 = saves w"
    using collect_saves [of pil png_files "[]" w] by simp
  show ?thesis
  proof (cases r)
    case (Inl e)
    with Pair w1 show ?thesis by (simp add: gather_def)
  next
    case (Inr images)
    have "saves (snd (generate_48 pil images w1)) = saves w1"
    proof (cases rule: collect_cases [where w = w1 and p = "iconset_file ''icon_256x256.png''" and pil = pil])
      case absent
      then show ?thesis by (simp add: generate_48_absent)
    next
      case undecodable
      then show ?thesis using generate_48_undecodable [of w1 pil images] by auto
    next
      case (present img)
      then show ?thesis by (simp add: generate_48_present)
    qed
    with Pair Inr w1 show ?thesis by (simp add: gather_def)
  qed
qed

lemma gather_trace_mono: "set (trace w) \<subseteq> set (trace (snd (gather pil w)))"
proof (cases "collect pil png_files [] w")
  case (Pair r w1)
  then have w1: "set (trace w) \<subseteq> set (trace w1)"
    using collect_trace_mono [of w pil png_files "[]"] by simp
  show ?thesis
  proof (cases r)
    case (Inl e)
    with Pair w1 show ?thesis by (simp add: gather_def)
  next
    case (Inr images)
    have "set (trace w1) \<subseteq> set (trace (snd (generate_48 pil images w1)))"
    proof (cases rule: collect_cases [where w = w1 and p = "iconset_file ''icon_256x256.png''" and pil = pil])
      case absent
      then show ?thesis by (simp add: generate_48_absent)
    next
      case undecodable
      then show ?thesis using generate_48_undecodable [of w1 pil images] by auto
    next
      case (present img)
      then show ?thesis by (auto simp: generate_48_present)
    qed
    with Pair Inr w1 show ?thesis by (auto simp: gather_def)
  qed
qed

text \<open>When the collection completes: every expected file that exists could be opened,
  and the list is the images of those files, with the 48x48 image inserted when the
  256 file is among them.\<close>

lemma gather_Inr_iff:
  "fst (gather pil w) = Inr r \<longleftrightarrow>
     (\<forall>n\<in>set png_files. fs w (iconset_file n) \<noteq> None \<longrightarrow> decode pil (fs w) (iconset_file n) \<noteq> None)
     \<and> r = (case decode pil (fs w) (iconset_file ''icon_256x256.png'') of
              None \<Rightarrow> expected_images pil (fs w)
            | Some img \<Rightarrow> list_insert 2 (Resized img (48, 48) LANCZOS) (expected_images pil (fs w)))"
  (is "?lhs \<longleftrightarrow> ?ok \<and> ?list")
proof (cases "collect pil png_files [] w")
  case (Pair r0 w1)
  then have w1: "fs w1 = fs w"
    using collect_fs [of pil png_files "[]" w] by simp
  have c: "fst (collect pil png_files [] w) = r0" using Pair by simp
  show ?thesis
  proof (cases r0)
    case (Inl e)
    then have "\<not> ?ok" using collect_Inr_iff [of pil png_files "[]" w] c by auto
    moreover have "\<not> ?lhs" using Pair Inl by (simp add: gather_def)
    ultimately show ?thesis by blast
  next
    case (Inr images)
    then have ok: ?ok and images: "images = expected_images pil (fs w)"
      using collect_Inr_iff [of pil png_files "[]" w images] c
      by (simp_all add: expected_images_def)
    have g: "gather pil w = generate_48 pil images w1"
      using Pair Inr by (simp add: gather_def)
    show ?thesis
    proof (cases rule: collect_cases [where w = w and p = "iconset_file ''icon_256x256.png''" and pil = pil])
      case absent
      then show ?thesis using ok images g w1 by (auto simp: generate_48_absent)
    next
      case undecodable
      then show ?thesis using ok icon_256_expected by blast
    next
      case (present img)
      then show ?thesis using ok images g w1 by (auto simp: generate_48_present)
    qed
  qed
qed

lemma gather_all_absent:
  assumes "\<forall>n\<in>set png_files. fs w (iconset_file n) = None"
  shows "gather pil w =
     (Inr [], w\<lparr>trace := trace w @ map (\<lambda>n. Stderr (''Warning: '' @ n @ '' not found'')) png_files\<rparr>)"
proof -
  have "fs w (iconset_file ''icon_256x256.png'') = None"
    using assms icon_256_expected by blast
  then show ?thesis
    by (simp add: gather_def collect_all_absent [OF assms] generate_48_absent)
qed

lemma gather_warns:
  assumes "n \<in> set png_files" and "fs w (iconset_file n) = None"
    and "fst (gather pil w) = Inr r"
  shows "Stderr (''Warning: '' @ n @ '' not found'') \<in> set (trace (snd (gather pil w)))"
proof -
  have ok: "\<forall>m\<in>set png_files. fs w (iconset_file m) \<noteq> None \<longrightarrow> decode pil (fs w) (iconset_file m) \<noteq> None"
    using assms(3) gather_Inr_iff by blast
  obtain r0 w1 where c: "collect pil png_files [] w = (r0, w1)"
    by (cases "collect pil png_files [] w")
  have warn: "Stderr (''Warning: '' @ n @ '' not found'') \<in> set (trace w1)"
    using collect_warns [OF assms(1,2) ok, of "[]"] c by simp
  have w1: "fs w1 = fs w"
    using collect_fs [of pil png_files "[]" w] c by simp
  show ?thesis
  proof (cases r0)
    case (Inl e)
    then show ?thesis using c warn by (simp add: gather_def)
  next
    case (Inr images)
    then have g: "gather pil w = generate_48 pil images w1"
      using c by (simp add: gather_def)
    show ?thesis
    proof (cases rule: collect_cases [where w = w1 and p = "iconset_file ''icon_256x256.png''" and pil = pil])
      case absent
      then show ?thesis using g warn by (simp add: generate_48_absent)
    next
      case undecodable
      then show ?thesis using g warn generate_48_undecodable [of w1 pil images] by auto
    next
      case (present img)
      then show ?thesis using g warn by (simp add: generate_48_present)
    qed
  qed
qed

lemma gather_cong:
  assumes "\<forall>n\<in>set png_files. fs w1 (iconset_file n) = fs w2 (iconset_file n)"
    and "trace w1 = trace w2"
  shows "fst (gather pil w1) = fst (gather pil w2) \<and>
         trace (snd (gather pil w1)) = trace (snd (gather pil w2))"
proof -
  obtain r1 v1 where c1: "collect pil png_files [] w1 = (r1, v1)"
    by (cases "collect pil png_files [] w1")
  obtain r2 v2 where c2: "collect pil png_files [] w2 = (r2, v2)"
    by (cases "collect pil png_files [] w2")
  have eq: "r1 = r2" "trace v1 = trace v2"
    using collect_cong [OF assms, of pil "[]"] c1 c2 by simp_all
  have f1: "fs v1 = fs w1" using collect_fs [of pil png_files "[]" w1] c1 by simp
  have f2: "fs v2 = fs w2" using collect_fs [of pil png_files "[]" w2] c2 by simp
  have same: "fs v1 (iconset_file ''icon_256x256.png'') = fs v2 (iconset_file ''icon_256x256.png'')"
    using assms(1) icon_256_expected f1 f2 by simp
  show ?thesis
  proof (cases r1)
    case (Inl e)
    then show ?thesis using c1 c2 eq by (simp add: gather_def)
  next
    case (Inr images)
    have "fst (generate_48 pil images v1) = fst (generate_48 pil images v2) \<and>
          trace (snd (generate_48 pil images v1)) = trace (snd (generate_48 pil images v2))"
    proof (cases rule: collect_cases [where w = v1 and p = "iconset_file ''icon_256x256.png''" and pil = pil])
      case absent
      then show ?thesis using same eq by (simp add: generate_48_absent)
    next
      case undecodable
      have "fst (Image_open pil (iconset_file ''icon_256x256.png'') v1)
              = fst (Image_open pil (iconset_file ''icon_256x256.png'') v2)"
        using same by (simp add: Image_open_def Let_def split: option.splits node.splits)
      moreover obtain e1 where "Image_open pil (iconset_file ''icon_256x256.png'') v1
          = (Inl e1, emit (Open_image (iconset_file ''icon_256x256.png'')) v1)"
        using Image_open_None [OF undecodable(2)] by blast
      moreover obtain e2 where "Image_open pil (iconset_file ''icon_256x256.png'') v2
          = (Inl e2, emit (Open_image (iconset_file ''icon_256x256.png'')) v2)"
        using Image_open_None [of pil v2 "iconset_file ''icon_256x256.png''"] undecodable(2)
          decode_cong [of "fs v1" "iconset_file ''icon_256x256.png''" "fs v2" pil, OF same]
        by auto
      ultimately show ?thesis
        using undecodable(1) same eq
        by (simp add: generate_48_def path_exists_def Let_def)
    next
      case (present img)
      then have "decode pil (fs v2) (iconset_file ''icon_256x256.png'') = Some img"
        using decode_cong [of "fs v1" "iconset_file ''icon_256x256.png''" "fs v2" pil, OF same] by simp
      with present show ?thesis using eq by (simp add: generate_48_present)
    qed
    moreover have "r2 = Inr images" using eq Inr by simp
    ultimately show ?thesis using c1 c2 Inr by (simp add: gather_def)
  qed
qed

subsection \<open>Writing the container\<close>

lemma save_ico_empty:
  "save_ico pil [] w = (Inl (SystemExit 1), print_err ''Error: No PNG images found to convert'' w)"
  by (simp add: save_ico_def)

lemma makedirs_fs_other: "p \<noteq> name \<Longrightarrow> fs (snd (makedirs name w)) p = fs w p"
  by (simp add: makedirs_def Let_def split: option.splits node.splits)

lemma makedirs_trace [simp]: "trace (snd (makedirs name w)) = trace w @ [Makedirs name]"
  by (simp add: makedirs_def Let_def split: option.splits node.splits)

lemma makedirs_File: "fs w name = Some (File b) \<Longrightarrow> makedirs name w = (Inl FileExistsError, emit (Makedirs name) w)"
  by (simp add: makedirs_def Let_def)

lemma makedirs_ok:
  "\<forall>b. fs w name \<noteq> Some (File b) \<Longrightarrow>
   fst (makedirs name w) = Inr () \<and> fs (snd (makedirs name w)) = (fs w)(name \<mapsto> Directory)"
  by (auto simp: makedirs_def Let_def split: option.splits node.splits)

text \<open>The four ways lines 61 to 86 can go for a non-empty list.\<close>

lemma save_ico_cases:
  assumes "images \<noteq> []"
  obtains
    (resources_is_file) b where "fs w ''resources'' = Some (File b)"
      and "save_ico pil images w = (Inl FileExistsError, emit (Makedirs ''resources'') w)"
  | (output_is_directory) "\<forall>b. fs w ''resources'' \<noteq> Some (File b)"
      and "fs w output_ico = Some Directory"
      and "fst (save_ico pil images w) = Inl IsADirectoryError"
      and "fs (snd (save_ico pil images w)) = (fs w)(''resources'' \<mapsto> Directory)"
      and "trace (snd (save_ico pil images w)) =
             trace w @ [Makedirs ''resources'', Save output_ico (save_args images None)]"
  | (encoder_fails) "\<forall>b. fs w ''resources'' \<noteq> Some (File b)"
      and "fs w output_ico \<noteq> Some Directory"
      and "ico_encode pil (primary (save_args images None)) (sizes (save_args images None))
             (append_images (save_args images None)) = None"
      and "fst (save_ico pil images w) = Inl EncoderError"
      and "fs (snd (save_ico pil images w)) = (fs w)(''resources'' \<mapsto> Directory)"
      and "trace (snd (save_ico pil images w)) =
             trace w @ [Makedirs ''resources'', Save output_ico (save_args images None)]"
  | (saved) b where "\<forall>b. fs w ''resources'' \<noteq> Some (File b)"
      and "fs w output_ico \<noteq> Some Directory"
      and "ico_encode pil (primary (save_args images None)) (sizes (save_args images None))
             (append_images (save_args images None)) = Some b"
      and "fst (save_ico pil images w) = Inr ()"
      and "fs (snd (save_ico pil images w)) = (fs w)(''resources'' \<mapsto> Directory, output_ico \<mapsto> File b)"
      and "trace (snd (save_ico pil images w)) =
             trace w @ [Makedirs ''resources'', Save output_ico (save_args images (Some b)),
                        Stdout (CHR 0x0A # ''Successfully created '' @ output_ico),
                        Stdout (''Size: '' @ str (length b) @ '' bytes (''
                                  @ str (length b div 1024) @ '' KB)'')]"
proof -
  define img where "img = hd (sorted_reverse area images)"
  define szs where "szs = map img_size images"
  define app where "app = (if 1 < length images then Some (tl (sorted_reverse area images)) else None)"
  have sa: "save_args images wr = \<lparr>primary = img, sizes = szs, append_images = app, written = wr\<rparr>" for wr
    by (simp add: save_args_def img_def szs_def app_def)
  have enc_eq: "ico_encode pil (primary (save_args images None)) (sizes (save_args images None))
             (append_images (save_args images None)) = ico_encode pil img szs app"
    by (simp add: sa)
  show ?thesis
  proof (cases "\<exists>b. fs w ''resources'' = Some (File b)")
    case True
    then obtain b where b: "fs w ''resources'' = Some (File b)" by blast
    then have "save_ico pil images w = (Inl FileExistsError, emit (Makedirs ''resources'') w)"
      using assms by (simp add: save_ico_def makedirs_File)
    with b show ?thesis by (rule resources_is_file)
  next
    case False
    then have nf: "\<forall>b. fs w ''resources'' \<noteq> Some (File b)" by simp
    obtain w1 where m: "makedirs ''resources'' w = (Inr (), w1)"
      and f1: "fs w1 = (fs w)(''resources'' \<mapsto> Directory)"
      and t1: "trace w1 = trace w @ [Makedirs ''resources'']"
      using makedirs_ok [OF nf] makedirs_trace [of "''resources''" w]
      by (cases "makedirs ''resources'' w") auto
    have out: "fs w1 output_ico = fs w output_ico"
      using f1 by (simp add: output_ico_def)
    have u1: "save_ico pil images w =
          (case Image_save pil img output_ico szs app w1 of
             (Inl e, w2) \<Rightarrow> (Inl e, w2)
           | (Inr u, w2) \<Rightarrow>
               (if path_exists w2 output_ico then
                  (case getsize w2 output_ico of
                     Inl e \<Rightarrow> (Inl e, w2)
                   | Inr size_bytes \<Rightarrow>
                       (Inr (),
                        print_out (''Size: '' @ str size_bytes @ '' bytes (''
                                     @ str (size_bytes div 1024) @ '' KB)'')
                          (print_out (CHR 0x0A # ''Successfully created '' @ output_ico) w2)))
                else
                  (Inl (SystemExit 1),
                   print_err (''Error: Failed to create '' @ output_ico) w2)))"
      using assms by (simp add: save_ico_def m Let_def img_def szs_def app_def)
    show ?thesis
    proof (cases "fs w output_ico = Some Directory")
      case True
      then have s: "Image_save pil img output_ico szs app w1 =
          (Inl IsADirectoryError, emit (Save output_ico (save_args images None)) w1)"
        using out by (simp add: Image_save_def Let_def sa)
      have "fst (save_ico pil images w) = Inl IsADirectoryError"
        and "fs (snd (save_ico pil images w)) = (fs w)(''resources'' \<mapsto> Directory)"
        and "trace (snd (save_ico pil images w)) =
               trace w @ [Makedirs ''resources'', Save output_ico (save_args images None)]"
        by (simp_all add: u1 s f1 t1)
      with nf True show ?thesis by (rule output_is_directory)
    next
      case nd: False
      show ?thesis
      proof (cases "ico_encode pil img szs app")
        case None
        then have s: "Image_save pil img output_ico szs app w1 =
            (Inl EncoderError, emit (Save output_ico (save_args images None)) w1)"
          using out nd by (simp add: Image_save_def Let_def sa split: option.splits node.splits)
        have "fst (save_ico pil images w) = Inl EncoderError"
          and "fs (snd (save_ico pil images w)) = (fs w)(''resources'' \<mapsto> Directory)"
          and "trace (snd (save_ico pil images w)) =
                 trace w @ [Makedirs ''resources'', Save output_ico (save_args images None)]"
          by (simp_all add: u1 s f1 t1)
        with nf nd None [folded enc_eq] show ?thesis by (rule encoder_fails)
      next
        case (Some b)
        then have s: "Image_save pil img output_ico szs app w1 =
            (Inr (), emit (Save output_ico (save_args images (Some b)))
                       (w1\<lparr>fs := (fs w1)(output_ico \<mapsto> File b)\<rparr>))"
          using out nd by (simp add: Image_save_def Let_def sa split: option.splits node.splits)
        have "fst (save_ico pil images w) = Inr ()"
          and "fs (snd (save_ico pil images w)) = (fs w)(''resources'' \<mapsto> Directory, output_ico \<mapsto> File b)"
          and "trace (snd (save_ico pil images w)) =
               trace w @ [Makedirs ''resources'', Save output_ico (save_args images (Some b)),
                          Stdout (CHR 0x0A # ''Successfully created '' @ output_ico),
                          Stdout (''Size: '' @ str (length b) @ '' bytes (''
                                    @ str (length b div 1024) @ '' KB)'')]"
          by (simp_all add: u1 s f1 t1 path_exists_def getsize_def)
        with nf nd Some [folded enc_eq] show ?thesis by (rule saved)
      qed
    qed
  qed
qed

subsection \<open>The whole run\<close>

lemma saves_init [simp]: "saves (init fs0) = []"
  by (simp add: saves_def init_def)

lemma fs_init [simp]: "fs (init fs0) = fs0"
  by (simp add: init_def)

lemma trace_init [simp]: "trace (init fs0) = []"
  by (simp add: init_def)

lemma saves_append: "trace w' = trace w @ es \<Longrightarrow> saves w' = saves w @ List.map_filter save_of es"
  by (simp add: saves_def List.map_filter_def)

lemma main_no_dir:
  "\<not> path_isdir (init fs0) iconset_dir \<Longrightarrow>
   main pil fs0 =
     (Inl (SystemExit 1), print_err (''Error: '' @ iconset_dir @ '' directory not found'') (init fs0))"
  by (simp add: main_def Let_def)

lemma main_dir:
  "path_isdir (init fs0) iconset_dir \<Longrightarrow>
   main pil fs0 =
     (case gather pil (init fs0) of
        (Inl e, w1) \<Rightarrow> (Inl e, w1)
      | (Inr images, w1) \<Rightarrow> save_ico pil images w1)"
  by (simp add: main_def Let_def)

lemma set_map_filter: "set (List.map_filter f xs) = {y. \<exists>x\<in>set xs. f x = Some y}"
  by (induction xs) (auto split: option.splits)

lemma set_expected_images:
  "set (expected_images pil f) = {img. \<exists>n\<in>set png_files. decode pil f (iconset_file n) = Some img}"
  by (simp add: expected_images_def set_map_filter)

lemma expected_images_not_synthesized: "img \<in> set (expected_images pil f) \<Longrightarrow> \<not> synthesized img"
  by (auto simp: set_expected_images dest: decode_Opened)

text \<open>A run in which the save wrote its file: how it went, from start to end.\<close>

lemma main_saved:
  assumes "save_succeeded (snd (main pil fs0))"
  obtains images w1 b where
    "path_isdir (init fs0) iconset_dir"
    and "gather pil (init fs0) = (Inr images, w1)"
    and "images \<noteq> []"
    and "ico_encode pil (primary (save_args images None)) (sizes (save_args images None))
           (append_images (save_args images None)) = Some b"
    and "fst (main pil fs0) = Inr ()"
    and "fs (snd (main pil fs0)) = fs0(''resources'' \<mapsto> Directory, output_ico \<mapsto> File b)"
    and "trace (snd (main pil fs0)) =
           trace w1 @ [Makedirs ''resources'', Save output_ico (save_args images (Some b)),
                       Stdout (CHR 0x0A # ''Successfully created '' @ output_ico),
                       Stdout (''Size: '' @ str (length b) @ '' bytes (''
                                 @ str (length b div 1024) @ '' KB)'')]"
    and "saves (snd (main pil fs0)) = [save_args images (Some b)]"
proof -
  have dir: "path_isdir (init fs0) iconset_dir"
  proof (rule ccontr)
    assume "\<not> path_isdir (init fs0) iconset_dir"
    then have "saves (snd (main pil fs0)) = []"
      by (simp add: main_no_dir)
    with assms show False by (simp add: save_succeeded_def)
  qed
  obtain r w1 where g: "gather pil (init fs0) = (r, w1)"
    by (cases "gather pil (init fs0)")
  have s1: "saves w1 = []" and f1: "fs w1 = fs0"
    using gather_saves [of pil "init fs0"] gather_fs [of pil "init fs0"] g by simp_all
  show ?thesis
  proof (cases r)
    case (Inl e)
    then have "saves (snd (main pil fs0)) = []"
      using dir g s1 by (simp add: main_dir)
    with assms show ?thesis by (simp add: save_succeeded_def)
  next
    case (Inr images)
    then have m: "main pil fs0 = save_ico pil images w1"
      using dir g by (simp add: main_dir)
    have ne: "images \<noteq> []"
    proof
      assume "images = []"
      then have "saves (snd (main pil fs0)) = []"
        using m s1 by (simp add: save_ico_empty)
      with assms show False by (simp add: save_succeeded_def)
    qed
    from ne show ?thesis
    proof (cases rule: save_ico_cases [where pil = pil and w = w1])
      case (resources_is_file b)
      then have "saves (snd (main pil fs0)) = []"
        using m s1 by simp
      with assms show ?thesis by (simp add: save_succeeded_def)
    next
      case output_is_directory
      then have "saves (snd (main pil fs0)) = [save_args images None]"
        using m s1 saves_append [of "snd (main pil fs0)" w1] by (simp add: List.map_filter_def)
      with assms show ?thesis by (simp add: save_succeeded_def)
    next
      case encoder_fails
      then have "saves (snd (main pil fs0)) = [save_args images None]"
        using m s1 saves_append [of "snd (main pil fs0)" w1] by (simp add: List.map_filter_def)
      with assms show ?thesis by (simp add: save_succeeded_def)
    next
      case (saved b)
      have "saves (snd (main pil fs0)) = [save_args images (Some b)]"
        using saved(6) m s1 saves_append [of "snd (main pil fs0)" w1] by (simp add: List.map_filter_def)
      with saved show ?thesis
        using that [of images w1 b] dir g Inr ne m f1 by simp
    qed
  qed
qed

text \<open>Conditions under which the run does write its file.\<close>

lemma main_succeeds:
  assumes dir: "path_isdir (init fs0) iconset_dir"
    and ok: "\<forall>n\<in>set png_files. fs0 (iconset_file n) \<noteq> None \<longrightarrow> decode pil fs0 (iconset_file n) \<noteq> None"
    and some: "\<exists>n\<in>set png_files. fs0 (iconset_file n) \<noteq> None"
    and res: "\<forall>b. fs0 ''resources'' \<noteq> Some (File b)"
    and out: "fs0 output_ico \<noteq> Some Directory"
    and enc: "\<forall>img szs app. ico_encode pil img szs app \<noteq> None"
  shows "save_succeeded (snd (main pil fs0))"
proof -
  obtain r w1 where g: "gather pil (init fs0) = (r, w1)"
    by (cases "gather pil (init fs0)")
  have f1: "fs w1 = fs0"
    using gather_fs [of pil "init fs0"] g by simp
  obtain images where r: "r = Inr images"
    and images: "images = (case decode pil fs0 (iconset_file ''icon_256x256.png'') of
              None \<Rightarrow> expected_images pil fs0
            | Some img \<Rightarrow> list_insert 2 (Resized img (48, 48) LANCZOS) (expected_images pil fs0))"
    using gather_Inr_iff [of pil "init fs0", unfolded fs_init] ok g by simp
  from some ok obtain n img where "n \<in> set png_files" "decode pil fs0 (iconset_file n) = Some img"
    by auto
  then have "expected_images pil fs0 \<noteq> []"
    using set_expected_images [of pil fs0] by auto
  then have ne: "images \<noteq> []"
    using images by (simp split: option.splits)
  have m: "main pil fs0 = save_ico pil images w1"
    using dir g r by (simp add: main_dir)
  from ne show ?thesis
  proof (cases rule: save_ico_cases [where pil = pil and w = w1])
    case (resources_is_file b)
    then show ?thesis using res f1 by simp
  next
    case output_is_directory
    then show ?thesis using out f1 by simp
  next
    case encoder_fails
    then show ?thesis using enc by simp
  next
    case (saved b)
    then show ?thesis
      using m saves_append [of "snd (main pil fs0)" w1]
      by (simp add: save_succeeded_def List.map_filter_def)
  qed
qed

subsection \<open>Runs that write their file, and second runs\<close>

lemma save_ico_calls:
  assumes "images \<noteq> []" and "saves w = []"
  shows "\<exists>wr. saves (snd (save_ico pil images w)) =
            (if \<exists>b. fs w ''resources'' = Some (File b) then [] else [save_args images wr])"
  using assms(1)
proof (cases rule: save_ico_cases [where pil = pil and w = w])
  case (resources_is_file b)
  then show ?thesis using assms(2) by simp
next
  case output_is_directory
  then show ?thesis
    using assms(2) saves_append [of "snd (save_ico pil images w)" w]
    by (auto simp: List.map_filter_def)
next
  case encoder_fails
  then show ?thesis
    using assms(2) saves_append [of "snd (save_ico pil images w)" w]
    by (auto simp: List.map_filter_def)
next
  case (saved b)
  then show ?thesis
    using assms(2) saves_append [of "snd (save_ico pil images w)" w]
    by (auto simp: List.map_filter_def)
qed

lemma expected_names:
  "''icon_16x16.png'' \<in> set png_files"
  "''icon_32x32.png'' \<in> set png_files"
  "''icon_32x32@2x.png'' \<in> set png_files"
  "''icon_128x128.png'' \<in> set png_files"
  "''icon_256x256.png'' \<in> set png_files"
  by (simp_all add: png_files_def)


lemma gathered_list:
  assumes "fst (gather pil (init fs0)) = Inr images"
  shows "images = (case decode pil fs0 (iconset_file ''icon_256x256.png'') of
              None \<Rightarrow> expected_images pil fs0
            | Some img \<Rightarrow> list_insert 2 (Resized img (48, 48) LANCZOS) (expected_images pil fs0))"
  using assms gather_Inr_iff [of pil "init fs0" images, unfolded fs_init] by simp

lemma fs_full_runs: "save_succeeded (snd (main pil0 fs_full))"
proof (rule main_succeeds)
  show "path_isdir (init fs_full) iconset_dir"
    by (simp add: path_isdir_def fs_full_def iconset_dir_def)
  show "\<forall>n\<in>set png_files. fs_full (iconset_file n) \<noteq> None \<longrightarrow> decode pil0 fs_full (iconset_file n) \<noteq> None"
    by (simp add: png_files_def fs_full_def iconset_dir_def path_join_def decode_def pil0_def)
  show "\<exists>n\<in>set png_files. fs_full (iconset_file n) \<noteq> None"
    by (simp add: png_files_def fs_full_def iconset_dir_def path_join_def)
  show "\<forall>b. fs_full ''resources'' \<noteq> Some (File b)"
    by (simp add: fs_full_def)
  show "fs_full output_ico \<noteq> Some Directory"
    by (simp add: fs_full_def output_ico_def)
  show "\<forall>img szs app. ico_encode pil0 img szs app \<noteq> None"
    by (simp add: pil0_def)
qed


lemma area_Resized [simp]: "area (Resized src (x, y) r) = x * y"
  by (simp add: area_def)


lemma fs_no256_runs: "save_succeeded (snd (main pil0 fs_no256))"
proof (rule main_succeeds)
  show "path_isdir (init fs_no256) iconset_dir"
    by (simp add: path_isdir_def fs_no256_def iconset_dir_def)
  show "\<forall>n\<in>set png_files. fs_no256 (iconset_file n) \<noteq> None \<longrightarrow> decode pil0 fs_no256 (iconset_file n) \<noteq> None"
    by (simp add: png_files_def fs_no256_def iconset_dir_def path_join_def decode_def pil0_def)
  show "\<exists>n\<in>set png_files. fs_no256 (iconset_file n) \<noteq> None"
    by (simp add: png_files_def fs_no256_def iconset_dir_def path_join_def)
  show "\<forall>b. fs_no256 ''resources'' \<noteq> Some (File b)"
    by (simp add: fs_no256_def)
  show "fs_no256 output_ico \<noteq> Some Directory"
    by (simp add: fs_no256_def output_ico_def)
  show "\<forall>img szs app. ico_encode pil0 img szs app \<noteq> None"
    by (simp add: pil0_def)
qed

lemma iconset_file_not_output:
  "iconset_file n \<noteq> ''resources''" "iconset_file n \<noteq> output_ico"
  "iconset_dir \<noteq> ''resources''" "iconset_dir \<noteq> output_ico"
  by (simp_all add: path_join_def iconset_dir_def output_ico_def)

text \<open>Two runs that both write their file, from file systems with the same expected
  files: same collected list, same events, same bytes.\<close>

lemma same_sources_same_run:
  assumes same: "\<forall>n\<in>set png_files. fs1 (iconset_file n) = fs2 (iconset_file n)"
    and s1: "save_succeeded (snd (main pil fs1))"
    and s2: "save_succeeded (snd (main pil fs2))"
  shows "fst (main pil fs1) = fst (main pil fs2)
       \<and> trace (snd (main pil fs1)) = trace (snd (main pil fs2))
       \<and> fs (snd (main pil fs1)) output_ico = fs (snd (main pil fs2)) output_ico"
proof -
  from s1 obtain images1 w1 b1 where
    g1: "gather pil (init fs1) = (Inr images1, w1)"
    and e1: "ico_encode pil (primary (save_args images1 None)) (sizes (save_args images1 None))
           (append_images (save_args images1 None)) = Some b1"
    and st1: "fst (main pil fs1) = Inr ()"
    and f1: "fs (snd (main pil fs1)) = fs1(''resources'' \<mapsto> Directory, output_ico \<mapsto> File b1)"
    and t1: "trace (snd (main pil fs1)) =
           trace w1 @ [Makedirs ''resources'', Save output_ico (save_args images1 (Some b1)),
                       Stdout (CHR 0x0A # ''Successfully created '' @ output_ico),
                       Stdout (''Size: '' @ str (length b1) @ '' bytes (''
                                 @ str (length b1 div 1024) @ '' KB)'')]"
    by (rule main_saved)
  from s2 obtain images2 w2 b2 where
    g2: "gather pil (init fs2) = (Inr images2, w2)"
    and e2: "ico_encode pil (primary (save_args images2 None)) (sizes (save_args images2 None))
           (append_images (save_args images2 None)) = Some b2"
    and st2: "fst (main pil fs2) = Inr ()"
    and f2: "fs (snd (main pil fs2)) = fs2(''resources'' \<mapsto> Directory, output_ico \<mapsto> File b2)"
    and t2: "trace (snd (main pil fs2)) =
           trace w2 @ [Makedirs ''resources'', Save output_ico (save_args images2 (Some b2)),
                       Stdout (CHR 0x0A # ''Successfully created '' @ output_ico),
                       Stdout (''Size: '' @ str (length b2) @ '' bytes (''
                                 @ str (length b2 div 1024) @ '' KB)'')]"
    by (rule main_saved)
  have "fst (gather pil (init fs1)) = fst (gather pil (init fs2))
      \<and> trace (snd (gather pil (init fs1))) = trace (snd (gather pil (init fs2)))"
    using same by (intro gather_cong) simp_all
  then have images: "images1 = images2" and tw: "trace w1 = trace w2"
    using g1 g2 by simp_all
  have b: "b1 = b2"
    using e1 e2 images by simp
  show ?thesis
    using st1 st2 f1 f2 t1 t2 images tw b by simp
qed

text \<open>After a run that wrote its file, a second run from the resulting file system
  writes its file as well.\<close>

lemma rerun_succeeds:
  assumes "save_succeeded (snd (main pil fs0))"
  shows "save_succeeded (snd (main pil (fs (snd (main pil fs0)))))"
    and "\<forall>n\<in>set png_files. fs0 (iconset_file n) = fs (snd (main pil fs0)) (iconset_file n)"
proof -
  from assms obtain images w1 b where
    dir: "path_isdir (init fs0) iconset_dir"
    and g: "gather pil (init fs0) = (Inr images, w1)" and ne: "images \<noteq> []"
    and e: "ico_encode pil (primary (save_args images None)) (sizes (save_args images None))
           (append_images (save_args images None)) = Some b"
    and f: "fs (snd (main pil fs0)) = fs0(''resources'' \<mapsto> Directory, output_ico \<mapsto> File b)"
    by (rule main_saved)
  define fs1 where "fs1 = fs (snd (main pil fs0))"
  have fs1: "fs1 = fs0(''resources'' \<mapsto> Directory, output_ico \<mapsto> File b)"
    using f by (simp add: fs1_def)
  show same: "\<forall>n\<in>set png_files. fs0 (iconset_file n) = fs (snd (main pil fs0)) (iconset_file n)"
    by (simp add: f iconset_file_not_output)
  have dir1: "path_isdir (init fs1) iconset_dir"
    using dir by (simp add: path_isdir_def fs1 iconset_file_not_output)
  obtain r v1 where g1: "gather pil (init fs1) = (r, v1)"
    by (cases "gather pil (init fs1)")
  have "fst (gather pil (init fs0)) = fst (gather pil (init fs1))"
    using same gather_cong [of "init fs0" "init fs1" pil] by (simp add: fs1_def)
  then have r: "r = Inr images"
    using g g1 by simp
  have fv1: "fs v1 = fs1"
    using gather_fs [of pil "init fs1"] g1 by simp
  have m: "main pil fs1 = save_ico pil images v1"
    using dir1 g1 r by (simp add: main_dir)
  from ne have "save_succeeded (snd (main pil fs1))"
  proof (cases rule: save_ico_cases [where pil = pil and w = v1])
    case (resources_is_file b')
    then show ?thesis using fv1 by (simp add: fs1 iconset_file_not_output output_ico_def)
  next
    case output_is_directory
    then show ?thesis using fv1 by (simp add: fs1)
  next
    case encoder_fails
    then show ?thesis using e by simp
  next
    case (saved b')
    then show ?thesis
      using m saves_append [of "snd (main pil fs1)" v1]
      by (simp add: save_succeeded_def List.map_filter_def)
  qed
  then show "save_succeeded (snd (main pil (fs (snd (main pil fs0)))))"
    by (simp add: fs1_def)
qed

text \<open>Running the script a second time, from whatever the first run left, ends with the
  same status, the same events and the same file system, whether or not the first run
  succeeded.\<close>

lemma main_twice:
  "fst (main pil (fs (snd (main pil fs0)))) = fst (main pil fs0)
   \<and> trace (snd (main pil (fs (snd (main pil fs0))))) = trace (snd (main pil fs0))
   \<and> fs (snd (main pil (fs (snd (main pil fs0))))) = fs (snd (main pil fs0))"
proof -
  define fs1 where "fs1 = fs (snd (main pil fs0))"
  have trivial: ?thesis if "fs (snd (main pil fs0)) = fs0"
    using that by simp
  show ?thesis
  proof (cases "path_isdir (init fs0) iconset_dir")
    case False
    then show ?thesis by (intro trivial) (simp add: main_no_dir)
  next
    case dir: True
    obtain r w1 where g: "gather pil (init fs0) = (r, w1)"
      by (cases "gather pil (init fs0)")
    have f1: "fs w1 = fs0"
      using gather_fs [of pil "init fs0"] g by simp
    show ?thesis
    proof (cases r)
      case (Inl e)
      then show ?thesis using dir g f1 by (intro trivial) (simp add: main_dir)
    next
      case (Inr images)
      then have m: "main pil fs0 = save_ico pil images w1"
        using dir g by (simp add: main_dir)
      show ?thesis
      proof (cases "images = []")
        case True
        then show ?thesis using m f1 by (intro trivial) (simp add: save_ico_empty)
      next
        case ne: False
        have second: "main pil fs1 = save_ico pil images v1 \<and> fs v1 = fs1 \<and> trace v1 = trace w1"
          if "fs1 = fs0(''resources'' \<mapsto> Directory)
              \<or> (\<exists>b. fs1 = fs0(''resources'' \<mapsto> Directory, output_ico \<mapsto> File b))"
            and "v1 = snd (gather pil (init fs1))" for v1
        proof -
          have same: "\<forall>n\<in>set png_files. fs (init fs0) (iconset_file n) = fs (init fs1) (iconset_file n)"
            using that(1) by (auto simp: iconset_file_not_output)
          have dir1: "path_isdir (init fs1) iconset_dir"
            using dir that(1) by (auto simp: path_isdir_def iconset_file_not_output)
          have "fst (gather pil (init fs0)) = fst (gather pil (init fs1))
              \<and> trace (snd (gather pil (init fs0))) = trace (snd (gather pil (init fs1)))"
            using same by (intro gather_cong) simp_all
          then have "gather pil (init fs1) = (Inr images, v1)" and "trace v1 = trace w1"
            using g Inr that(2) by (simp_all add: prod_eq_iff)
          moreover have "fs v1 = fs1"
            using gather_fs [of pil "init fs1"] that(2) by simp
          ultimately show ?thesis
            using dir1 by (simp add: main_dir)
        qed
        from ne show ?thesis
        proof (cases rule: save_ico_cases [where pil = pil and w = w1])
          case (resources_is_file b)
          then show ?thesis using m f1 by (intro trivial) simp
        next
          case output_is_directory
          have fs1: "fs1 = fs0(''resources'' \<mapsto> Directory)"
            using output_is_directory(4) m f1 by (simp add: fs1_def)
          obtain v1 where v1: "main pil fs1 = save_ico pil images v1" "fs v1 = fs1" "trace v1 = trace w1"
            using second [of "snd (gather pil (init fs1))"] fs1 by blast
          from ne have "fst (save_ico pil images v1) = Inl IsADirectoryError
            \<and> fs (snd (save_ico pil images v1)) = fs1
            \<and> trace (snd (save_ico pil images v1)) =
                trace v1 @ [Makedirs ''resources'', Save output_ico (save_args images None)]"
          proof (cases rule: save_ico_cases [where pil = pil and w = v1])
            case (resources_is_file b)
            then show ?thesis using v1(2) fs1 by simp
          next
            case output_is_directory
            then show ?thesis using v1(2) fs1 by simp
          next
            case encoder_fails
            then show ?thesis
              using v1(2) fs1 f1 \<open>fs w1 output_ico = Some Directory\<close>
              by (simp add: output_ico_def)
          next
            case (saved b)
            then show ?thesis
              using v1(2) fs1 f1 \<open>fs w1 output_ico = Some Directory\<close>
              by (simp add: output_ico_def)
          qed
          then show ?thesis
            using output_is_directory m v1 fs1 f1 by (simp add: fs1_def [symmetric])
        next
          case encoder_fails
          have fs1: "fs1 = fs0(''resources'' \<mapsto> Directory)"
            using encoder_fails(5) m f1 by (simp add: fs1_def)
          obtain v1 where v1: "main pil fs1 = save_ico pil images v1" "fs v1 = fs1" "trace v1 = trace w1"
            using second [of "snd (gather pil (init fs1))"] fs1 by blast
          have nd: "fs v1 output_ico \<noteq> Some Directory"
            using v1(2) fs1 f1 \<open>fs w1 output_ico \<noteq> Some Directory\<close> by (simp add: output_ico_def)
          from ne have "fst (save_ico pil images v1) = Inl EncoderError
            \<and> fs (snd (save_ico pil images v1)) = fs1
            \<and> trace (snd (save_ico pil images v1)) =
                trace v1 @ [Makedirs ''resources'', Save output_ico (save_args images None)]"
          proof (cases rule: save_ico_cases [where pil = pil and w = v1])
            case (resources_is_file b)
            then show ?thesis using v1(2) fs1 by simp
          next
            case output_is_directory
            then show ?thesis using nd by simp
          next
            case encoder_fails
            then show ?thesis using v1(2) fs1 by simp
          next
            case (saved b)
            then show ?thesis
              using \<open>ico_encode pil (primary (save_args images None)) (sizes (save_args images None))
                       (append_images (save_args images None)) = None\<close>
              by simp
          qed
          then show ?thesis
            using encoder_fails m v1 fs1 f1 by (simp add: fs1_def [symmetric])
        next
          case (saved b)
          have fs1: "fs1 = fs0(''resources'' \<mapsto> Directory, output_ico \<mapsto> File b)"
            using saved(5) m f1 by (simp add: fs1_def)
          obtain v1 where v1: "main pil fs1 = save_ico pil images v1" "fs v1 = fs1" "trace v1 = trace w1"
            using second [of "snd (gather pil (init fs1))"] fs1 by blast
          from ne have "fst (save_ico pil images v1) = Inr ()
            \<and> fs (snd (save_ico pil images v1)) = fs1
            \<and> trace (snd (save_ico pil images v1)) =
                trace v1 @ [Makedirs ''resources'', Save output_ico (save_args images (Some b)),
                       Stdout (CHR 0x0A # ''Successfully created '' @ output_ico),
                       Stdout (''Size: '' @ str (length b) @ '' bytes (''
                                 @ str (length b div 1024) @ '' KB)'')]"
          proof (cases rule: save_ico_cases [where pil = pil and w = v1])
            case (resources_is_file b')
            then show ?thesis using v1(2) fs1 by (simp add: output_ico_def)
          next
            case output_is_directory
            then show ?thesis using v1(2) fs1 by simp
          next
            case encoder_fails
            then show ?thesis
              using \<open>ico_encode pil (primary (save_args images None)) (sizes (save_args images None))
                       (append_images (save_args images None)) = Some b\<close>
              by simp
          next
            case (saved b')
            then have "b' = b"
              using \<open>ico_encode pil (primary (save_args images None)) (sizes (save_args images None))
                       (append_images (save_args images None)) = Some b\<close>
              by simp
            with saved show ?thesis using v1(2) fs1 by (simp add: output_ico_def)
          qed
          then show ?thesis
            using saved m v1 fs1 f1 by (simp add: fs1_def [symmetric])
        qed
      qed
    qed
  qed
qed

section \<open>The claims\<close>



text \<open>
  C2. When the source directory phraims.iconset does not exist, the run writes an error
  message to standard error and exits with status 1; that message is all it does: no
  image is opened, no directory is created, no file is written, and the file system is
  as it was.
\<close>

theorem missing_source_directory:
  assumes "\<not> path_isdir (init fs0) iconset_dir"
  shows "exit_status (fst (main pil fs0)) = 1
       \<and> trace (snd (main pil fs0)) = [Stderr ''Error: phraims.iconset directory not found'']
       \<and> fs (snd (main pil fs0)) = fs0"
  using assms by (simp add: main_no_dir iconset_dir_def)

theorem missing_source_directory_witness:
  "\<not> path_isdir (init fs_nodir) iconset_dir
   \<and> exit_status (fst (main pil0 fs_nodir)) = 1
   \<and> trace (snd (main pil0 fs_nodir)) = [Stderr ''Error: phraims.iconset directory not found'']
   \<and> fs (snd (main pil0 fs_nodir)) = fs_nodir"
proof -
  have h: "\<not> path_isdir (init fs_nodir) iconset_dir"
    by (simp add: path_isdir_def fs_nodir_def iconset_dir_def)
  show ?thesis
    using h missing_source_directory [OF h, of pil0] by simp
qed

text \<open>
  C3. When the source directory exists but none of the five expected file names is
  present in it, whatever else the file system holds, the run prints a warning for each
  expected file and then the error, both on standard error, and exits with status 1.
\<close>

theorem no_expected_file_present:
  assumes "path_isdir (init fs0) iconset_dir"
    and "\<forall>n\<in>set png_files. \<not> path_exists (init fs0) (iconset_file n)"
  shows "exit_status (fst (main pil fs0)) = 1
       \<and> trace (snd (main pil fs0)) =
           map (\<lambda>n. Stderr (''Warning: '' @ n @ '' not found'')) png_files
           @ [Stderr ''Error: No PNG images found to convert'']"
proof -
  have "\<forall>n\<in>set png_files. fs (init fs0) (iconset_file n) = None"
    using assms(2) by (simp add: path_exists_def)
  then have "gather pil (init fs0) =
      (Inr [], (init fs0)\<lparr>trace := trace (init fs0)
                 @ map (\<lambda>n. Stderr (''Warning: '' @ n @ '' not found'')) png_files\<rparr>)"
    by (rule gather_all_absent)
  then show ?thesis
    using assms(1) by (simp add: main_dir save_ico_empty)
qed

theorem no_expected_file_present_witness:
  "path_isdir (init fs_unrelated) iconset_dir
   \<and> fs_unrelated ''phraims.iconset/README.txt'' = Some (File [1, 2, 3])
   \<and> exit_status (fst (main pil0 fs_unrelated)) = 1
   \<and> last (trace (snd (main pil0 fs_unrelated))) = Stderr ''Error: No PNG images found to convert''"
proof -
  have h1: "path_isdir (init fs_unrelated) iconset_dir"
    by (simp add: path_isdir_def fs_unrelated_def iconset_dir_def)
  have h2: "\<forall>n\<in>set png_files. \<not> path_exists (init fs_unrelated) (iconset_file n)"
    by (simp add: path_exists_def fs_unrelated_def iconset_dir_def png_files_def path_join_def)
  have h3: "fs_unrelated ''phraims.iconset/README.txt'' = Some (File [1, 2, 3])"
    by (simp add: fs_unrelated_def)
  show ?thesis
    using h1 h3 no_expected_file_present [OF h1 h2, of pil0] by simp
qed

text \<open>
  C4. When icon\_256x256.png is absent, nothing is synthesized: the collected list is
  exactly the images of the expected files that are present, none of them a resized
  image. The loop runs to its end whenever every present file can be opened, having
  printed a warning for each missing expected file. If moreover some expected file is
  present and the save succeeds, the run exits with status 0, and the save call was given
  the sizes and images of exactly those files.
\<close>

theorem absent_256_nothing_synthesized:
  assumes "\<not> path_exists (init fs0) (iconset_file ''icon_256x256.png'')"
  shows "((\<forall>n\<in>set png_files. path_exists (init fs0) (iconset_file n)
              \<longrightarrow> decode pil fs0 (iconset_file n) \<noteq> None)
          \<longrightarrow> (\<exists>w1. gather pil (init fs0) = (Inr (expected_images pil fs0), w1)
                  \<and> (\<forall>n\<in>set png_files. \<not> path_exists (init fs0) (iconset_file n)
                        \<longrightarrow> Stderr (''Warning: '' @ n @ '' not found'') \<in> set (trace w1))))
       \<and> (\<forall>images w1. gather pil (init fs0) = (Inr images, w1)
             \<longrightarrow> images = expected_images pil fs0)
       \<and> \<not> list_ex synthesized (expected_images pil fs0)
       \<and> ((\<exists>n\<in>set png_files. path_exists (init fs0) (iconset_file n))
            \<and> save_succeeded (snd (main pil fs0))
          \<longrightarrow> exit_status (fst (main pil fs0)) = 0
            \<and> (\<exists>c. saves (snd (main pil fs0)) = [c]
                  \<and> sizes c = map img_size (expected_images pil fs0)
                  \<and> mset (frames c) = mset (expected_images pil fs0)
                  \<and> \<not> list_ex synthesized (frames c)))"
proof -
  have d256: "decode pil fs0 (iconset_file ''icon_256x256.png'') = None"
    using assms by (simp add: path_exists_def)
  have nosyn: "\<not> list_ex synthesized (expected_images pil fs0)"
    using expected_images_not_synthesized [of _ pil fs0] by (auto simp: list_ex_iff)
  have list: "images = expected_images pil fs0"
    if "gather pil (init fs0) = (Inr images, w1)" for images w1
    using gathered_list [of pil fs0 images] that by (simp add: d256)
  have loop: "\<exists>w1. gather pil (init fs0) = (Inr (expected_images pil fs0), w1)
                  \<and> (\<forall>n\<in>set png_files. \<not> path_exists (init fs0) (iconset_file n)
                        \<longrightarrow> Stderr (''Warning: '' @ n @ '' not found'') \<in> set (trace w1))"
    if ok: "\<forall>n\<in>set png_files. path_exists (init fs0) (iconset_file n)
              \<longrightarrow> decode pil fs0 (iconset_file n) \<noteq> None"
  proof -
    have gi: "fst (gather pil (init fs0)) = Inr (expected_images pil fs0)"
      using gather_Inr_iff [of pil "init fs0" "expected_images pil fs0", unfolded fs_init] ok
      by (simp add: d256 path_exists_def)
    then have g: "gather pil (init fs0) = (Inr (expected_images pil fs0), snd (gather pil (init fs0)))"
      by (metis prod.collapse)
    have "Stderr (''Warning: '' @ n @ '' not found'') \<in> set (trace (snd (gather pil (init fs0))))"
      if "n \<in> set png_files" "\<not> path_exists (init fs0) (iconset_file n)" for n
      using gather_warns [of n "init fs0" pil, OF that(1) _ gi] that(2)
      by (simp add: path_exists_def)
    with g show ?thesis by blast
  qed
  have run: "exit_status (fst (main pil fs0)) = 0
            \<and> (\<exists>c. saves (snd (main pil fs0)) = [c]
                  \<and> sizes c = map img_size (expected_images pil fs0)
                  \<and> mset (frames c) = mset (expected_images pil fs0)
                  \<and> \<not> list_ex synthesized (frames c))"
    if "save_succeeded (snd (main pil fs0))"
  proof -
    from that obtain images w1 b where
      g: "gather pil (init fs0) = (Inr images, w1)" and ne: "images \<noteq> []"
      and st: "fst (main pil fs0) = Inr ()"
      and sv: "saves (snd (main pil fs0)) = [save_args images (Some b)]"
      by (rule main_saved)
    have images: "images = expected_images pil fs0"
      using list [OF g] .
    have fr: "frames (save_args images (Some b)) = sorted_reverse area images"
      using ne by (rule frames_save_args)
    have "set (frames (save_args images (Some b))) = set (expected_images pil fs0)"
      using fr images by simp
    then have "\<not> list_ex synthesized (frames (save_args images (Some b)))"
      using nosyn by (simp add: list_ex_iff)
    then show ?thesis
      using st sv fr images by simp
  qed
  show ?thesis
    using loop list nosyn run by blast
qed

theorem absent_256_nothing_synthesized_witness:
  "\<not> path_exists (init fs_no256) (iconset_file ''icon_256x256.png'')
   \<and> path_exists (init fs_no256) (iconset_file ''icon_16x16.png'')
   \<and> save_succeeded (snd (main pil0 fs_no256))
   \<and> exit_status (fst (main pil0 fs_no256)) = 0
   \<and> fst (gather pil0 (init fs_no256))
       = Inr [Opened [16, 16] (16, 16), Opened [128, 128] (128, 128)]
   \<and> Stderr ''Warning: icon_32x32.png not found'' \<in> set (trace (snd (gather pil0 (init fs_no256))))
   \<and> map sizes (saves (snd (main pil0 fs_no256))) = [[(16, 16), (128, 128)]]"
proof -
  have h1: "\<not> path_exists (init fs_no256) (iconset_file ''icon_256x256.png'')"
    by (simp add: path_exists_def fs_no256_def iconset_dir_def path_join_def)
  have h2: "path_exists (init fs_no256) (iconset_file ''icon_16x16.png'')"
    by (simp add: path_exists_def fs_no256_def iconset_dir_def path_join_def)
  have h3: "\<forall>n\<in>set png_files. path_exists (init fs_no256) (iconset_file n)
              \<longrightarrow> decode pil0 fs_no256 (iconset_file n) \<noteq> None"
    by (simp add: path_exists_def png_files_def fs_no256_def iconset_dir_def path_join_def
        decode_def pil0_def)
  have h4: "save_succeeded (snd (main pil0 fs_no256))"
    by (rule fs_no256_runs)
  have h5: "\<not> path_exists (init fs_no256) (iconset_file ''icon_32x32.png'')"
    by (simp add: path_exists_def fs_no256_def iconset_dir_def path_join_def)
  have h6: "\<exists>n\<in>set png_files. path_exists (init fs_no256) (iconset_file n)"
    using h2 expected_names(1) by blast
  have ex: "expected_images pil0 fs_no256 = [Opened [16, 16] (16, 16), Opened [128, 128] (128, 128)]"
    by (simp add: expected_images_def png_files_def fs_no256_def iconset_dir_def path_join_def
        decode_def pil0_def)
  note t = absent_256_nothing_synthesized [OF h1, of pil0]
  from t h3 obtain w1 where
    g: "gather pil0 (init fs_no256) = (Inr (expected_images pil0 fs_no256), w1)"
    and warn: "\<forall>n\<in>set png_files. \<not> path_exists (init fs_no256) (iconset_file n)
                 \<longrightarrow> Stderr (''Warning: '' @ n @ '' not found'') \<in> set (trace w1)"
    by blast
  have w32: "Stderr ''Warning: icon_32x32.png not found'' \<in> set (trace w1)"
    using warn expected_names(2) h5 by fastforce
  from t h6 h4 have "exit_status (fst (main pil0 fs_no256)) = 0
      \<and> map sizes (saves (snd (main pil0 fs_no256))) = [map img_size (expected_images pil0 fs_no256)]"
    by auto
  then show ?thesis
    using h1 h2 h4 g w32 by (simp add: ex)
qed




text \<open>
  C6. For every non-empty list of collected images, the images handed to the encoder by
  the save call of lines 72 to 77 (the image \<open>save\<close> is called on, then
  \<open>append_images\<close>) are the collected images ordered by pixel area, largest first:
  each image's area is at most its predecessor's, and the first one has maximal area.
  The call is made whenever creating the resources directory does not fail.
\<close>

theorem images_ordered_by_area:
  assumes "images \<noteq> []" and "saves w = []"
  shows "(\<forall>c\<in>set (saves (snd (save_ico pil images w))).
            frames c = sorted_reverse area images
          \<and> sorted_wrt (\<lambda>a b. area b \<le> area a) (frames c)
          \<and> (\<forall>i\<in>set images. area i \<le> area (primary c))
          \<and> primary c \<in> set images
          \<and> mset (frames c) = mset images)
       \<and> ((\<forall>b. fs w ''resources'' \<noteq> Some (File b))
            \<longrightarrow> (\<exists>c. saves (snd (save_ico pil images w)) = [c]))"
proof -
  obtain wr where s: "saves (snd (save_ico pil images w)) =
            (if \<exists>b. fs w ''resources'' = Some (File b) then [] else [save_args images wr])"
    using save_ico_calls [OF assms] by blast
  have fr: "frames (save_args images wr) = sorted_reverse area images"
    using assms(1) by (rule frames_save_args)
  have hd_in: "hd (sorted_reverse area images) \<in> set images"
    using assms(1) hd_in_set [of "sorted_reverse area images"] by simp
  have "frames (save_args images wr) = sorted_reverse area images
          \<and> sorted_wrt (\<lambda>a b. area b \<le> area a) (frames (save_args images wr))
          \<and> (\<forall>i\<in>set images. area i \<le> area (primary (save_args images wr)))
          \<and> primary (save_args images wr) \<in> set images
          \<and> mset (frames (save_args images wr)) = mset images"
    using fr hd_in by (simp add: sorted_reverse_descending hd_sorted_reverse_max)
  then show ?thesis using s by (simp split: if_splits)
qed

theorem images_ordered_by_area_witness:
  "map frames (saves (snd (save_ico pil0
       [Opened [16, 16] (16, 16), Resized (Opened [256, 256] (256, 256)) (48, 48) LANCZOS,
        Opened [256, 256] (256, 256)] (init fs_full))))
   = [[Opened [256, 256] (256, 256), Resized (Opened [256, 256] (256, 256)) (48, 48) LANCZOS,
       Opened [16, 16] (16, 16)]]
   \<and> map area [Opened [256, 256] (256, 256), Resized (Opened [256, 256] (256, 256)) (48, 48) LANCZOS,
       Opened [16, 16] (16, 16)] = [65536, 2304, 256]"
proof -
  let ?images = "[Opened [16, 16] (16, 16), Resized (Opened [256, 256] (256, 256)) (48, 48) LANCZOS,
        Opened [256, 256] (256, 256)]"
  have ne: "?images \<noteq> []" by simp
  have s0: "saves (init fs_full) = []" by simp
  have res: "\<forall>b. fs (init fs_full) ''resources'' \<noteq> Some (File b)"
    by (simp add: fs_full_def)
  have srt: "sorted_reverse area ?images =
      [Opened [256, 256] (256, 256), Resized (Opened [256, 256] (256, 256)) (48, 48) LANCZOS,
       Opened [16, 16] (16, 16)]"
    by (simp add: sorted_reverse_def area_def)
  from images_ordered_by_area [OF ne s0, of pil0] res
  obtain c where c: "saves (snd (save_ico pil0 ?images (init fs_full))) = [c]"
    and fr: "frames c = sorted_reverse area ?images"
    by auto
  show ?thesis
    using c fr srt by (simp add: area_def)
qed

text \<open>
  C7. Two runs on the same source directory contents (the same nodes at the five expected
  paths) that both write their output file write the same bytes, so the files have equal
  size, and the runs have the same exit status and the same output, event for event. In
  particular this holds for a second run started from what a first successful run left.
  The image library is a function of its arguments here: its determinism is assumed, that
  of the script is what is proved.
\<close>

theorem same_sources_same_output:
  assumes "\<forall>n\<in>set png_files. fs1 (iconset_file n) = fs2 (iconset_file n)"
    and "save_succeeded (snd (main pil fs1))"
    and "save_succeeded (snd (main pil fs2))"
  shows "fs (snd (main pil fs1)) output_ico = fs (snd (main pil fs2)) output_ico
       \<and> getsize (snd (main pil fs1)) output_ico = getsize (snd (main pil fs2)) output_ico
       \<and> exit_status (fst (main pil fs1)) = exit_status (fst (main pil fs2))
       \<and> trace (snd (main pil fs1)) = trace (snd (main pil fs2))"
  using same_sources_same_run [OF assms] by (simp add: getsize_def)

theorem same_sources_same_output_witness:
  "save_succeeded (snd (main pil0 fs_full))
   \<and> save_succeeded (snd (main pil0 (fs (snd (main pil0 fs_full)))))
   \<and> getsize (snd (main pil0 fs_full)) output_ico
       = getsize (snd (main pil0 (fs (snd (main pil0 fs_full))))) output_ico
   \<and> fs (snd (main pil0 fs_full)) output_ico
       = fs (snd (main pil0 (fs (snd (main pil0 fs_full))))) output_ico
   \<and> trace (snd (main pil0 fs_full))
       = trace (snd (main pil0 (fs (snd (main pil0 fs_full)))))"
proof -
  have h1: "save_succeeded (snd (main pil0 fs_full))"
    by (rule fs_full_runs)
  have h2: "save_succeeded (snd (main pil0 (fs (snd (main pil0 fs_full)))))"
    using h1 by (rule rerun_succeeds(1))
  have h3: "\<forall>n\<in>set png_files. fs_full (iconset_file n)
              = fs (snd (main pil0 fs_full)) (iconset_file n)"
    using h1 by (rule rerun_succeeds(2))
  show ?thesis
    using h1 h2 same_sources_same_output [OF h3 h1 h2] by simp
qed

text \<open>
  C8. In both fatal cases that come before the write (the source directory is missing,
  or none of the expected files exists) the run exits with status 1 having only printed:
  no library call that touches the file system was made, so neither the resources
  directory nor the output file was created, and the file system is unchanged.
\<close>

theorem fatal_before_write_changes_nothing:
  assumes "\<not> path_isdir (init fs0) iconset_dir
           \<or> (\<forall>n\<in>set png_files. \<not> path_exists (init fs0) (iconset_file n))"
  shows "exit_status (fst (main pil fs0)) = 1
       \<and> fs (snd (main pil fs0)) = fs0
       \<and> \<not> list_ex touches_fs (trace (snd (main pil fs0)))
       \<and> saves (snd (main pil fs0)) = []"
proof (cases "path_isdir (init fs0) iconset_dir")
  case False
  then show ?thesis by (simp add: main_no_dir)
next
  case True
  with assms have "\<forall>n\<in>set png_files. fs (init fs0) (iconset_file n) = None"
    by (simp add: path_exists_def)
  then have "gather pil (init fs0) =
      (Inr [], (init fs0)\<lparr>trace := trace (init fs0)
                 @ map (\<lambda>n. Stderr (''Warning: '' @ n @ '' not found'')) png_files\<rparr>)"
    by (rule gather_all_absent)
  then show ?thesis
    using True by (simp add: main_dir save_ico_empty list_ex_iff saves_def List.map_filter_def
        print_err_def emit_def comp_def)
qed

theorem fatal_before_write_changes_nothing_witness:
  "path_isdir (init fs_unrelated) iconset_dir
   \<and> exit_status (fst (main pil0 fs_unrelated)) = 1
   \<and> fs (snd (main pil0 fs_unrelated)) = fs_unrelated
   \<and> fs (snd (main pil0 fs_unrelated)) ''resources'' = None
   \<and> fs (snd (main pil0 fs_unrelated)) output_ico = None
   \<and> \<not> list_ex touches_fs (trace (snd (main pil0 fs_unrelated)))"
proof -
  have h1: "path_isdir (init fs_unrelated) iconset_dir"
    by (simp add: path_isdir_def fs_unrelated_def iconset_dir_def)
  have h2: "\<forall>n\<in>set png_files. \<not> path_exists (init fs_unrelated) (iconset_file n)"
    by (simp add: path_exists_def fs_unrelated_def iconset_dir_def png_files_def path_join_def)
  have h3: "fs_unrelated ''resources'' = None" "fs_unrelated output_ico = None"
    by (simp_all add: fs_unrelated_def output_ico_def)
  show ?thesis
    using h1 h3 fatal_before_write_changes_nothing [of fs_unrelated pil0] h2 by simp
qed



text \<open>
  C10. For every non-empty list of collected images, the \<open>sizes\<close> argument of the save
  call is the list of (width, height) pairs of the collected images in the order they
  were collected (before sorting); as a multiset it equals the dimensions of the
  area-sorted images handed to the encoder, so each size occurs in \<open>sizes\<close> exactly as
  often as there are images of that size among them.
\<close>

theorem sizes_presort_same_multiset:
  assumes "images \<noteq> []" and "saves w = []"
  shows "(\<forall>c\<in>set (saves (snd (save_ico pil images w))).
            sizes c = map img_size images
          \<and> mset (sizes c) = mset (map img_size (frames c))
          \<and> (\<forall>s. length (filter (\<lambda>x. x = s) (sizes c))
                     = length (filter (\<lambda>i. img_size i = s) (frames c))))
       \<and> ((\<forall>b. fs w ''resources'' \<noteq> Some (File b))
            \<longrightarrow> (\<exists>c. saves (snd (save_ico pil images w)) = [c]))"
proof -
  obtain wr where s: "saves (snd (save_ico pil images w)) =
            (if \<exists>b. fs w ''resources'' = Some (File b) then [] else [save_args images wr])"
    using save_ico_calls [OF assms] by blast
  have fr: "frames (save_args images wr) = sorted_reverse area images"
    using assms(1) by (rule frames_save_args)
  have counts: "length (filter (\<lambda>x. x = s) (map img_size images))
                  = length (filter (\<lambda>i. img_size i = s) (sorted_reverse area images))" for s
  proof -
    have "length (filter (\<lambda>x. x = s) (map img_size images))
            = length (filter (\<lambda>i. img_size i = s) images)"
      by (simp add: filter_map comp_def)
    also have "\<dots> = size (filter_mset (\<lambda>i. img_size i = s) (mset images))"
      by (metis mset_filter size_mset)
    also have "\<dots> = size (filter_mset (\<lambda>i. img_size i = s) (mset (sorted_reverse area images)))"
      by simp
    also have "\<dots> = length (filter (\<lambda>i. img_size i = s) (sorted_reverse area images))"
      by (metis mset_filter size_mset)
    finally show ?thesis .
  qed
  have "mset (map img_size images) = mset (map img_size (sorted_reverse area images))"
    by simp
  then have "sizes (save_args images wr) = map img_size images
          \<and> mset (sizes (save_args images wr)) = mset (map img_size (frames (save_args images wr)))
          \<and> (\<forall>s. length (filter (\<lambda>x. x = s) (sizes (save_args images wr)))
                     = length (filter (\<lambda>i. img_size i = s) (frames (save_args images wr))))"
    using fr counts by simp
  then show ?thesis using s by (simp split: if_splits)
qed

theorem sizes_presort_same_multiset_witness:
  "map sizes (saves (snd (save_ico pil0
       [Opened [16, 16] (16, 16), Resized (Opened [256, 256] (256, 256)) (48, 48) LANCZOS,
        Opened [256, 256] (256, 256)] (init fs_full))))
   = [[(16, 16), (48, 48), (256, 256)]]
   \<and> map (map img_size \<circ> frames) (saves (snd (save_ico pil0
       [Opened [16, 16] (16, 16), Resized (Opened [256, 256] (256, 256)) (48, 48) LANCZOS,
        Opened [256, 256] (256, 256)] (init fs_full))))
   = [[(256, 256), (48, 48), (16, 16)]]"
proof -
  let ?images = "[Opened [16, 16] (16, 16), Resized (Opened [256, 256] (256, 256)) (48, 48) LANCZOS,
        Opened [256, 256] (256, 256)]"
  have ne: "?images \<noteq> []" by simp
  have s0: "saves (init fs_full) = []" by simp
  have res: "\<forall>b. fs (init fs_full) ''resources'' \<noteq> Some (File b)"
    by (simp add: fs_full_def)
  have srt: "sorted_reverse area ?images =
      [Opened [256, 256] (256, 256), Resized (Opened [256, 256] (256, 256)) (48, 48) LANCZOS,
       Opened [16, 16] (16, 16)]"
    by (simp add: sorted_reverse_def area_def)
  from sizes_presort_same_multiset [OF ne s0, of pil0] res
  obtain c where c: "saves (snd (save_ico pil0 ?images (init fs_full))) = [c]"
    and sz: "sizes c = map img_size ?images"
    by auto
  obtain wr where "saves (snd (save_ico pil0 ?images (init fs_full))) = [save_args ?images wr]"
    using save_ico_calls [OF ne s0, of pil0] res by auto
  then have "frames c = sorted_reverse area ?images"
    using c frames_save_args [OF ne, of wr] by simp
  then show ?thesis
    using c sz srt by simp
qed

end
